theory Spec2Isabelle
  imports Complex_Main "HOL-Library.Sublist" "HOL-Library.Log_Nat"
begin

section \<open>JavaScript strings and truthiness\<close>

text \<open>
  Strings are modelled as \<open>string\<close> (lists of 8-bit characters).  The string built-ins the
  sources call are modelled on the ASCII range: \<open>toLowerCase\<close> maps \<open>A\<close>..\<open>Z\<close> to
  \<open>a\<close>..\<open>z\<close> and leaves every other character alone, \<open>trim\<close> strips the ASCII white
  space (tab, line feed, vertical tab, form feed, carriage return, space) from both ends,
  and \<open>s.includes(q)\<close> is the contiguous-substring test.
\<close>

definition upper_letters :: string where
  "upper_letters = ''ABCDEFGHIJKLMNOPQRSTUVWXYZ''"

definition lower_letters :: string where
  "lower_letters = ''abcdefghijklmnopqrstuvwxyz''"

definition toLowerChar :: "char \<Rightarrow> char" where
  "toLowerChar c =
     (case map_of (zip upper_letters lower_letters) c of Some l \<Rightarrow> l | None \<Rightarrow> c)"

definition toLowerCase :: "string \<Rightarrow> string" where
  "toLowerCase s = map toLowerChar s"

definition isWhitespace :: "char \<Rightarrow> bool" where
  "isWhitespace c = (c \<in> set [CHR 0x09, CHR 0x0A, CHR 0x0B, CHR 0x0C, CHR 0x0D, CHR '' ''])"

definition trim :: "string \<Rightarrow> string" where
  "trim s = rev (dropWhile isWhitespace (rev (dropWhile isWhitespace s)))"

text \<open>\<open>str_includes s q\<close> is \<open>s.includes(q)\<close> on strings.\<close>

fun str_includes :: "string \<Rightarrow> string \<Rightarrow> bool" where
  "str_includes s [] = True"
| "str_includes [] (q # qs) = False"
| "str_includes (c # cs) (q # qs) = (prefix (q # qs) (c # cs) \<or> str_includes cs (q # qs))"

text \<open>
  JavaScript truthiness of the values the sources test with \<open>if (x)\<close>, \<open>!x\<close> and
  \<open>x || d\<close>: a string is truthy unless it is empty; \<open>null\<close>/\<open>undefined\<close> (\<open>None\<close>)
  is falsy; an array is always truthy.
\<close>

definition truthy_str :: "string \<Rightarrow> bool" where
  "truthy_str s = (s \<noteq> [])"

definition truthy_opt_str :: "string option \<Rightarrow> bool" where
  "truthy_opt_str v = (case v of None \<Rightarrow> False | Some s \<Rightarrow> truthy_str s)"

text \<open>\<open>v || ''\<close> on an optional string and \<open>v || []\<close> on an optional array.\<close>

definition or_empty_str :: "string option \<Rightarrow> string" where
  "or_empty_str v = (case v of None \<Rightarrow> [] | Some s \<Rightarrow> s)"

definition or_empty_list :: "'a list option \<Rightarrow> 'a list" where
  "or_empty_list v = (case v of None \<Rightarrow> [] | Some xs \<Rightarrow> xs)"

section \<open>Data model of the controller (app.js)\<close>

text \<open>
  A file entry as the controller holds it (the object built in \<open>getFiles\<close> and in
  \<open>handleFileFormSubmit\<close>).  A field that may be \<open>null\<close> or \<open>undefined\<close> is an
  \<open>option\<close>; time stamps are the millisecond time values of the \<open>Date\<close> objects.
\<close>

record file_entry =
  file_id :: string
  title :: "string option"
  description :: "string option"
  ftype :: string
  folderId :: "string option"
  folderName :: "string option"
  tags :: "string list option"
  fileUrl :: "string option"
  thumbnailUrl :: "string option"
  fileName :: "string option"
  fileSize :: "string option"
  createdAt :: int
  updatedAt :: int

text \<open>
  The values the \<open>count\<close> of a folder can hold.  It is meant to be a number; since the
  counts are read from a plain object used as a dictionary, it can also be a function
  that every object inherits (named by its property name), the prototype object itself,
  or the text of one of these followed by a number of \<open>1\<close> characters.
\<close>

datatype count_value = CountV nat | InheritedFn string | ProtoObj | TextOf count_value nat

record folder =
  folder_id :: string
  name :: string
  count :: count_value

record appState =
  files :: "file_entry list"
  folders :: "folder list"
  filteredFiles :: "file_entry list"
  typeFilter :: string
  folderFilter :: "string option"
  selectedTags :: "string list"
  searchQuery :: string
  isLoading :: bool
  editingFile :: "file_entry option"

section \<open>Filtering (app.js, applyFilters)\<close>

text \<open>
  The four filter steps of \<open>applyFilters\<close>, in the order of the source; each one is
  applied to the result of the previous one only when its guard holds.  The call to
  \<open>renderFiles\<close> at the end only draws the result and is not part of the state.
\<close>

definition tag_filter_pred :: "string list \<Rightarrow> file_entry \<Rightarrow> bool" where
  "tag_filter_pred sel f =
     (let fileTags = or_empty_list (tags f)
      in list_ex (\<lambda>tag. tag \<in> set fileTags) sel)"

definition search_filter_pred :: "string \<Rightarrow> file_entry \<Rightarrow> bool" where
  "search_filter_pred query f =
     (let titleMatch = str_includes (toLowerCase (or_empty_str (title f))) query;
          descMatch = str_includes (toLowerCase (or_empty_str (description f))) query;
          tagMatch = list_ex (\<lambda>t. str_includes (toLowerCase t) query) (or_empty_list (tags f))
      in titleMatch \<or> descMatch \<or> tagMatch)"

definition applyFilters :: "appState \<Rightarrow> appState" where
  "applyFilters st =
     (let filtered0 = files st;
          filtered1 = (if typeFilter st \<noteq> ''all''
                       then filter (\<lambda>f. ftype f = typeFilter st) filtered0 else filtered0);
          filtered2 = (if truthy_opt_str (folderFilter st)
                       then filter (\<lambda>f. folderId f = folderFilter st) filtered1 else filtered1);
          filtered3 = (if length (selectedTags st) > 0
                       then filter (tag_filter_pred (selectedTags st)) filtered2 else filtered2);
          filtered4 = (if truthy_str (searchQuery st)
                       then filter (search_filter_pred (toLowerCase (searchQuery st))) filtered3
                       else filtered3)
      in st\<lparr>filteredFiles := filtered4\<rparr>)"

text \<open>
  The visible-subset predicate as the specification words it: the folder filter applies
  unless it is \<open>null\<close>.
\<close>

definition spec_visible :: "appState \<Rightarrow> file_entry \<Rightarrow> bool" where
  "spec_visible st f =
     ((typeFilter st = ''all'' \<or> ftype f = typeFilter st) \<and>
      (folderFilter st = None \<or> folderId f = folderFilter st) \<and>
      (selectedTags st = [] \<or> (\<exists>tag \<in> set (selectedTags st). tag \<in> set (or_empty_list (tags f)))) \<and>
      (searchQuery st = [] \<or>
         str_includes (toLowerCase (or_empty_str (title f))) (toLowerCase (searchQuery st)) \<or>
         str_includes (toLowerCase (or_empty_str (description f))) (toLowerCase (searchQuery st)) \<or>
         (\<exists>t \<in> set (or_empty_list (tags f)).
            str_includes (toLowerCase t) (toLowerCase (searchQuery st)))))"

text \<open>
  The predicate the code computes: the folder filter applies when it is truthy, that is,
  neither \<open>null\<close> nor the empty string.
\<close>

definition code_visible :: "appState \<Rightarrow> file_entry \<Rightarrow> bool" where
  "code_visible st f =
     ((typeFilter st = ''all'' \<or> ftype f = typeFilter st) \<and>
      (folderFilter st = None \<or> folderFilter st = Some [] \<or> folderId f = folderFilter st) \<and>
      (selectedTags st = [] \<or> (\<exists>tag \<in> set (selectedTags st). tag \<in> set (or_empty_list (tags f)))) \<and>
      (searchQuery st = [] \<or>
         str_includes (toLowerCase (or_empty_str (title f))) (toLowerCase (searchQuery st)) \<or>
         str_includes (toLowerCase (or_empty_str (description f))) (toLowerCase (searchQuery st)) \<or>
         (\<exists>t \<in> set (or_empty_list (tags f)).
            str_includes (toLowerCase t) (toLowerCase (searchQuery st)))))"

text \<open>Sample data used to run the definitions on concrete inputs.\<close>

definition sample_file :: "string \<Rightarrow> string \<Rightarrow> string option \<Rightarrow> string list \<Rightarrow> file_entry" where
  "sample_file i ttl fld tgs =
     \<lparr>file_id = i, title = Some ttl, description = None, ftype = ''pdf'', folderId = fld,
      folderName = None, tags = Some tgs, fileUrl = None, thumbnailUrl = None,
      fileName = None, fileSize = None, createdAt = 0, updatedAt = 0\<rparr>"

definition sample_state :: "file_entry list \<Rightarrow> string \<Rightarrow> string option \<Rightarrow> string list \<Rightarrow> string \<Rightarrow> appState" where
  "sample_state fs ty fld sel q =
     \<lparr>files = fs, folders = [], filteredFiles = [], typeFilter = ty, folderFilter = fld,
      selectedTags = sel, searchQuery = q, isLoading = False, editingFile = None\<rparr>"

section \<open>Folder counts (api.js, recalculateFolderCounts)\<close>

text \<open>
  \<open>countMap\<close> is a plain object \<open>{}\<close> used as a dictionary from folder ids to
  counts.  It is modelled by its own properties together with what every object
  inherits from \<open>Object.prototype\<close>: reading a key that is not an own property gives the
  inherited function when the key names one, and \<open>undefined\<close> (\<open>None\<close>) otherwise;
  reading \<open>__proto__\<close> gives the prototype object, and assigning a value that is not an
  object to \<open>__proto__\<close> changes nothing.  A file is counted only when
  \<open>if (f.folderId)\<close> holds, that is, when its folder id is truthy.
\<close>

definition object_prototype_functions :: "string list" where
  "object_prototype_functions =
     [''constructor'', ''__defineGetter__'', ''__defineSetter__'', ''hasOwnProperty'',
      ''__lookupGetter__'', ''__lookupSetter__'', ''isPrototypeOf'', ''propertyIsEnumerable'',
      ''toString'', ''valueOf'', ''toLocaleString'']"

definition inherited_name :: "string \<Rightarrow> bool" where
  "inherited_name k = (k = ''__proto__'' \<or> k \<in> set object_prototype_functions)"

text \<open>\<open>countMap[k]\<close>\<close>

definition read_prop :: "(string \<rightharpoonup> count_value) \<Rightarrow> string \<Rightarrow> count_value option" where
  "read_prop own k =
     (if k = ''__proto__'' then Some ProtoObj
      else case own k of
             Some v \<Rightarrow> Some v
           | None \<Rightarrow> if k \<in> set object_prototype_functions then Some (InheritedFn k) else None)"

text \<open>\<open>countMap[k] = v\<close>, for a value \<open>v\<close> that is a number or a string.\<close>

definition write_prop ::
  "(string \<rightharpoonup> count_value) \<Rightarrow> string \<Rightarrow> count_value \<Rightarrow> (string \<rightharpoonup> count_value)" where
  "write_prop own k v = (if k = ''__proto__'' then own else own(k \<mapsto> v))"

text \<open>Truthiness: a number unless it is zero; every function, object and such text.\<close>

fun truthy_count :: "count_value \<Rightarrow> bool" where
  "truthy_count (CountV n) = (n \<noteq> 0)"
| "truthy_count (InheritedFn f) = True"
| "truthy_count ProtoObj = True"
| "truthy_count (TextOf b n) = True"

text \<open>\<open>v || 0\<close>\<close>

definition or_zero :: "count_value option \<Rightarrow> count_value" where
  "or_zero v = (case v of None \<Rightarrow> CountV 0 | Some c \<Rightarrow> if truthy_count c then c else CountV 0)"

text \<open>\<open>v + 1\<close>: addition on a number, concatenation of \<open>1\<close> on anything else.\<close>

fun plus_one :: "count_value \<Rightarrow> count_value" where
  "plus_one (CountV n) = CountV (n + 1)"
| "plus_one (TextOf b n) = TextOf b (n + 1)"
| "plus_one (InheritedFn f) = TextOf (InheritedFn f) 1"
| "plus_one ProtoObj = TextOf ProtoObj 1"

definition count_step ::
  "(string \<rightharpoonup> count_value) \<Rightarrow> file_entry \<Rightarrow> (string \<rightharpoonup> count_value)" where
  "count_step countMap f =
     (case folderId f of
        None \<Rightarrow> countMap
      | Some fid \<Rightarrow>
          if truthy_str fid
          then write_prop countMap fid (plus_one (or_zero (read_prop countMap fid)))
          else countMap)"

definition recalculateFolderCounts :: "file_entry list \<Rightarrow> folder list \<Rightarrow> folder list" where
  "recalculateFolderCounts fs fos =
     (let countMap = foldl count_step Map.empty fs
      in map (\<lambda>fo. fo\<lparr>count := or_zero (read_prop countMap (folder_id fo))\<rparr>) fos)"

text \<open>The exact reference count the specification speaks of.\<close>

definition reference_count :: "file_entry list \<Rightarrow> string \<Rightarrow> nat" where
  "reference_count fs fid = length (filter (\<lambda>f. folderId f = Some fid) fs)"

section \<open>File mutations of the controller (app.js)\<close>

text \<open>
  The outcome of a data-layer call as the handlers see it: \<open>result.success\<close> and, for
  a creation, the id of the created row (\<open>result.data?.id\<close>), if any.
\<close>

record call_result =
  success :: bool
  data_id :: "string option"

text \<open>The object \<open>fileData\<close> assembled by \<open>handleFileFormSubmit\<close> from the form.\<close>

record fileData =
  fd_title :: string
  fd_type :: string
  fd_folderId :: "string option"
  fd_folderName :: "string option"
  fd_description :: string
  fd_tags :: "string list"
  fd_fileUrl :: "string option"
  fd_thumbnailUrl :: "string option"
  fd_fileName :: "string option"
  fd_fileSize :: "string option"

text \<open>\<open>{...old, ...fileData, updatedAt: new Date()}\<close>\<close>

definition merge_fileData :: "file_entry \<Rightarrow> fileData \<Rightarrow> int \<Rightarrow> file_entry" where
  "merge_fileData old d now =
     old\<lparr>title := Some (fd_title d), ftype := fd_type d, folderId := fd_folderId d,
         folderName := fd_folderName d, description := Some (fd_description d),
         tags := Some (fd_tags d), fileUrl := fd_fileUrl d,
         thumbnailUrl := fd_thumbnailUrl d, fileName := fd_fileName d,
         fileSize := fd_fileSize d, updatedAt := now\<rparr>"

text \<open>\<open>{id: ..., ...fileData, createdAt: new Date(), updatedAt: new Date()}\<close>\<close>

definition new_file_entry :: "string \<Rightarrow> fileData \<Rightarrow> int \<Rightarrow> int \<Rightarrow> file_entry" where
  "new_file_entry i d created updated =
     \<lparr>file_id = i, title = Some (fd_title d), description = Some (fd_description d),
      ftype = fd_type d, folderId = fd_folderId d, folderName = fd_folderName d,
      tags = Some (fd_tags d), fileUrl = fd_fileUrl d, thumbnailUrl = fd_thumbnailUrl d,
      fileName = fd_fileName d, fileSize = fd_fileSize d,
      createdAt = created, updatedAt = updated\<rparr>"

text \<open>\<open>xs.findIndex(p)\<close>, with \<open>None\<close> for \<open>-1\<close>.\<close>

fun findIndex :: "('a \<Rightarrow> bool) \<Rightarrow> 'a list \<Rightarrow> nat option" where
  "findIndex p [] = None"
| "findIndex p (x # xs) =
     (if p x then Some 0 else (case findIndex p xs of None \<Rightarrow> None | Some i \<Rightarrow> Some (Suc i)))"

text \<open>
  \<open>handleDeleteFile\<close>.  \<open>confirmed\<close> is the answer of the confirmation dialog and
  \<open>result\<close> the outcome of the awaited \<open>deleteFile(fileId)\<close>, which is only consulted
  when the file exists and the user confirmed.
\<close>

definition handleDeleteFile :: "string \<Rightarrow> bool \<Rightarrow> call_result \<Rightarrow> appState \<Rightarrow> appState" where
  "handleDeleteFile fileId confirmed result st =
     (case find (\<lambda>f. file_id f = fileId) (files st) of
        None \<Rightarrow> st
      | Some file \<Rightarrow>
          if \<not> confirmed then st
          else if success result then
            (let st1 = st\<lparr>files := filter (\<lambda>f. file_id f \<noteq> fileId) (files st)\<rparr>;
                 st2 = st1\<lparr>folders := recalculateFolderCounts (files st1) (folders st1)\<rparr>
             in applyFilters st2)
          else st)"

text \<open>
  \<open>handleFileFormSubmit\<close> from the point where \<open>fileData\<close> has been assembled
  (the earlier part reads the form and uploads the attachment, and returns without
  touching the state when the title is empty or the upload fails).  \<open>fileId\<close> is the
  hidden form field (empty for a new entry), \<open>result\<close> the outcome of the awaited
  \<open>updateFile\<close> or \<open>createFile\<close>, \<open>uuid\<close> the value of \<open>crypto.randomUUID()\<close> and
  \<open>now1\<close>, \<open>now2\<close> the values of the \<open>new Date()\<close> calls.
\<close>

definition handleFileFormSubmit ::
  "string \<Rightarrow> fileData \<Rightarrow> call_result \<Rightarrow> string \<Rightarrow> int \<Rightarrow> int \<Rightarrow> appState \<Rightarrow> appState" where
  "handleFileFormSubmit fileId d result uuid now1 now2 st =
     (let st1 =
        (if truthy_str fileId then
           (if success result then
              (case findIndex (\<lambda>f. file_id f = fileId) (files st) of
                 None \<Rightarrow> st
               | Some index \<Rightarrow>
                   st\<lparr>files := (files st)[index := merge_fileData (files st ! index) d now1]\<rparr>)
            else st)
         else
           (if success result then
              (let newFile = new_file_entry
                     (case data_id result of
                        None \<Rightarrow> uuid
                      | Some i \<Rightarrow> if truthy_str i then i else uuid)
                     d now1 now2
               in st\<lparr>files := newFile # files st\<rparr>)
            else st))
      in if success result then
           applyFilters (st1\<lparr>folders := recalculateFolderCounts (files st1) (folders st1)\<rparr>)
         else st1)"

section \<open>Tag editing (components.js)\<close>

text \<open>
  The module variable \<open>currentTags\<close> is passed in and returned.  \<open>renderTagsList\<close>
  only draws the list.
\<close>

definition addTagToList :: "string \<Rightarrow> string list \<Rightarrow> string list" where
  "addTagToList tag currentTags =
     (let trimmed = toLowerCase (trim tag)
      in if \<not> truthy_str trimmed \<or> trimmed \<in> set currentTags then currentTags
         else currentTags @ [trimmed])"

definition removeTagFromList :: "string \<Rightarrow> string list \<Rightarrow> string list" where
  "removeTagFromList tag currentTags = filter (\<lambda>t. t \<noteq> tag) currentTags"

definition clearFileTags :: "string list \<Rightarrow> string list" where
  "clearFileTags currentTags = []"

text \<open>
  The values \<open>currentTags\<close> can take: it starts empty and is only ever changed by the
  three functions above.
\<close>

inductive tags_reachable :: "string list \<Rightarrow> bool" where
  initial: "tags_reachable []"
| add: "tags_reachable ts \<Longrightarrow> tags_reachable (addTagToList tag ts)"
| remove: "tags_reachable ts \<Longrightarrow> tags_reachable (removeTagFromList tag ts)"
| clear: "tags_reachable ts \<Longrightarrow> tags_reachable (clearFileTags ts)"

definition sample_folders :: "folder list" where
  "sample_folders =
     [\<lparr>folder_id = ''f1'', name = ''Algebra'', count = CountV 0\<rparr>,
      \<lparr>folder_id = ''f2'', name = ''Poetry'', count = CountV 5\<rparr>]"

definition sample_files :: "file_entry list" where
  "sample_files =
     [sample_file ''a'' ''Linear Algebra'' (Some ''f1'') [''math''],
      sample_file ''b'' ''Groups'' (Some ''f1'') [''math''],
      sample_file ''c'' ''Loose sheet'' None []]"

section \<open>Values and objects of the data layer (api.js)\<close>

text \<open>
  The data layer handles plain objects.  A property value is \<open>undefined\<close>, \<open>null\<close>, a
  number, a string, an array of strings or a \<open>Date\<close>; these are the kinds of values the
  file and folder records of the application hold.  A \<open>Date\<close> is its time value in
  milliseconds, or \<open>None\<close> for an invalid date.  An object is the list of its properties
  in insertion order.
\<close>

datatype fval =
  Undefined | Null | Num int | Str string | StrList "string list" | DateV "int option"

type_synonym obj = "(string \<times> fval) list"

text \<open>\<open>ob.k\<close>: a missing property reads as \<open>undefined\<close>.\<close>

definition get_prop :: "obj \<Rightarrow> string \<Rightarrow> fval" where
  "get_prop ob k = (case map_of ob k of None \<Rightarrow> Undefined | Some v \<Rightarrow> v)"

text \<open>
  Defining property \<open>k\<close> in an object literal: an existing property keeps its place
  and takes the new value, a new one goes to the end.
\<close>

fun set_prop :: "string \<Rightarrow> fval \<Rightarrow> obj \<Rightarrow> obj" where
  "set_prop k v [] = [(k, v)]"
| "set_prop k v ((k', v') # ps) =
     (if k' = k then (k, v) # ps else (k', v') # set_prop k v ps)"

text \<open>\<open>{...a, ...b}\<close>\<close>

definition spread :: "obj \<Rightarrow> obj \<Rightarrow> obj" where
  "spread a b = foldl (\<lambda>acc (k, v). set_prop k v acc) a b"

text \<open>
  The result objects \<open>{success: true, data}\<close> and \<open>{success: false, error}\<close> of the
  data layer; \<open>error\<close> is \<open>undefined\<close> when the failure carries no message.
\<close>

datatype api_result = Success "obj option" | Failure "string option"

text \<open>
  An error object of the remote client or a caught exception: its \<open>message\<close> property
  and the text \<open>JSON.stringify\<close> makes of it.
\<close>

record js_error =
  message :: "string option"
  json_text :: string

section \<open>The local fallback store (api.js)\<close>

text \<open>
  \<open>localStorage\<close> maps keys to strings.  A stored string is represented by what
  \<open>JSON.parse\<close> makes of it: \<open>Unparseable\<close> when parsing throws (this includes the
  empty string, which the readers also treat as absent), and otherwise the parsed array
  of flat objects; other JSON shapes are outside the model.  \<open>JSON.stringify\<close> followed
  by \<open>JSON.parse\<close> is thereby taken to return the JSON value that was written.
\<close>

datatype json = JNull | JNum int | JStr string | JStrList "string list"

type_synonym json_obj = "(string \<times> json) list"

datatype item = Unparseable | Rows "json_obj list"

type_synonym localStorage = "string \<Rightarrow> item option"

text \<open>
  The built-in conversions between a time value and its ISO-8601 text
  (\<open>Date.prototype.toISOString\<close>, used by \<open>JSON.stringify\<close> through \<open>toJSON\<close>, and the
  string parser behind \<open>new Date(string)\<close>) are parameters of the model.
\<close>

record date_builtins =
  toISOString :: "int \<Rightarrow> string"
  parseDate :: "string \<Rightarrow> int option"

text \<open>A time value is valid when it lies within 8.64e15 ms of the epoch.\<close>

definition valid_time :: "int \<Rightarrow> bool" where
  "valid_time t = (\<bar>t\<bar> \<le> 8640000000000000)"

definition time_clip :: "int \<Rightarrow> int option" where
  "time_clip t = (if valid_time t then Some t else None)"

text \<open>
  What \<open>JSON.stringify\<close> writes for a property value: nothing for \<open>undefined\<close> (the
  property is omitted), \<open>null\<close> for an invalid date, the ISO text for a valid date.
\<close>

fun to_json :: "date_builtins \<Rightarrow> fval \<Rightarrow> json option" where
  "to_json B Undefined = None"
| "to_json B Null = Some JNull"
| "to_json B (Num n) = Some (JNum n)"
| "to_json B (Str s) = Some (JStr s)"
| "to_json B (StrList xs) = Some (JStrList xs)"
| "to_json B (DateV None) = Some JNull"
| "to_json B (DateV (Some t)) = Some (JStr (toISOString B t))"

definition stringify_obj :: "date_builtins \<Rightarrow> obj \<Rightarrow> json_obj" where
  "stringify_obj B ob = List.map_filter (\<lambda>(k, v). map_option (Pair k) (to_json B v)) ob"

fun of_json :: "json \<Rightarrow> fval" where
  "of_json JNull = Null"
| "of_json (JNum n) = Num n"
| "of_json (JStr s) = Str s"
| "of_json (JStrList xs) = StrList xs"

definition parse_obj :: "json_obj \<Rightarrow> obj" where
  "parse_obj j = map (\<lambda>(k, v). (k, of_json v)) j"

text \<open>\<open>xs.join(',')\<close>, the string an array converts to.\<close>

fun join_comma :: "string list \<Rightarrow> string" where
  "join_comma [] = []"
| "join_comma [x] = x"
| "join_comma (x # y # ys) = x @ '','' @ join_comma (y # ys)"

text \<open>\<open>new Date(v)\<close>\<close>

fun newDate :: "date_builtins \<Rightarrow> fval \<Rightarrow> fval" where
  "newDate B Undefined = DateV None"
| "newDate B Null = DateV (Some 0)"
| "newDate B (Num n) = DateV (time_clip n)"
| "newDate B (Str s) = DateV (parseDate B s)"
| "newDate B (StrList xs) = DateV (parseDate B (join_comma xs))"
| "newDate B (DateV d) = DateV d"

text \<open>
  The function mapped over the parsed array by \<open>getFilesFromLocalStorage\<close>:
  \<open>f => ({...f, createdAt: new Date(f.createdAt), updatedAt: new Date(f.updatedAt)})\<close>.
\<close>

definition revive_dates :: "date_builtins \<Rightarrow> json_obj \<Rightarrow> obj" where
  "revive_dates B j =
     (let f = parse_obj j
      in set_prop ''updatedAt'' (newDate B (get_prop f ''updatedAt''))
           (set_prop ''createdAt'' (newDate B (get_prop f ''createdAt'')) f))"

definition getFilesFromLocalStorage :: "date_builtins \<Rightarrow> localStorage \<Rightarrow> obj list" where
  "getFilesFromLocalStorage B store =
     (case store ''archiveFiles'' of
        None \<Rightarrow> []
      | Some Unparseable \<Rightarrow> []
      | Some (Rows stored) \<Rightarrow> map (revive_dates B) stored)"

definition saveFilesToLocalStorage ::
  "date_builtins \<Rightarrow> obj list \<Rightarrow> localStorage \<Rightarrow> localStorage" where
  "saveFilesToLocalStorage B fs store =
     store(''archiveFiles'' \<mapsto> Rows (map (stringify_obj B) fs))"

text \<open>
  \<open>uuid\<close> is the value of \<open>crypto.randomUUID()\<close>; \<open>now1\<close>, \<open>now2\<close> and \<open>now\<close> are
  the time values of the \<open>new Date()\<close> calls.  Each function returns its result object
  and the store it leaves.
\<close>

definition createFileInLocalStorage ::
  "date_builtins \<Rightarrow> obj \<Rightarrow> string \<Rightarrow> int \<Rightarrow> int \<Rightarrow> localStorage \<Rightarrow> api_result \<times> localStorage" where
  "createFileInLocalStorage B fileData uuid now1 now2 store =
     (let fs = getFilesFromLocalStorage B store;
          newFile = set_prop ''updatedAt'' (DateV (Some now2))
                     (set_prop ''createdAt'' (DateV (Some now1))
                        (spread [(''id'', Str uuid)] fileData))
      in (Success (Some newFile), saveFilesToLocalStorage B (newFile # fs) store))"

definition updateFileInLocalStorage ::
  "date_builtins \<Rightarrow> string \<Rightarrow> obj \<Rightarrow> int \<Rightarrow> localStorage \<Rightarrow> api_result \<times> localStorage" where
  "updateFileInLocalStorage B fid fileData now store =
     (let fs = getFilesFromLocalStorage B store
      in case findIndex (\<lambda>f. get_prop f ''id'' = Str fid) fs of
           None \<Rightarrow> (Failure (Some ''File not found''), store)
         | Some index \<Rightarrow>
             (Success None,
              saveFilesToLocalStorage B
                (fs[index := set_prop ''updatedAt'' (DateV (Some now))
                               (spread (fs ! index) fileData)])
                store))"

definition deleteFileFromLocalStorage ::
  "date_builtins \<Rightarrow> string \<Rightarrow> localStorage \<Rightarrow> api_result \<times> localStorage" where
  "deleteFileFromLocalStorage B fid store =
     (let fs = getFilesFromLocalStorage B store;
          filtered = filter (\<lambda>f. get_prop f ''id'' \<noteq> Str fid) fs
      in (Success None, saveFilesToLocalStorage B filtered store))"

definition getFoldersFromLocalStorage :: "localStorage \<Rightarrow> obj list" where
  "getFoldersFromLocalStorage store =
     (case store ''archiveFolders'' of
        None \<Rightarrow> []
      | Some Unparseable \<Rightarrow> []
      | Some (Rows stored) \<Rightarrow> map parse_obj stored)"

definition saveFoldersToLocalStorage ::
  "date_builtins \<Rightarrow> obj list \<Rightarrow> localStorage \<Rightarrow> localStorage" where
  "saveFoldersToLocalStorage B fos store =
     store(''archiveFolders'' \<mapsto> Rows (map (stringify_obj B) fos))"

definition createFolderInLocalStorage ::
  "date_builtins \<Rightarrow> string \<Rightarrow> string \<Rightarrow> localStorage \<Rightarrow> api_result \<times> localStorage" where
  "createFolderInLocalStorage B nm uuid store =
     (let fos = getFoldersFromLocalStorage store;
          newFolder = [(''id'', Str uuid), (''name'', Str nm), (''count'', Num 0)]
      in (Success (Some newFolder), saveFoldersToLocalStorage B (fos @ [newFolder]) store))"

definition deleteFolderFromLocalStorage ::
  "date_builtins \<Rightarrow> string \<Rightarrow> localStorage \<Rightarrow> api_result \<times> localStorage" where
  "deleteFolderFromLocalStorage B fid store =
     (let fos = getFoldersFromLocalStorage store;
          filtered = filter (\<lambda>f. get_prop f ''id'' \<noteq> Str fid) fos
      in (Success None, saveFoldersToLocalStorage B filtered store))"

text \<open>
  A file record as the data model describes it: an object with distinct property names
  whose \<open>createdAt\<close> and \<open>updatedAt\<close> are valid dates and which holds no other date.
\<close>

definition is_date :: "fval \<Rightarrow> bool" where
  "is_date v = (case v of DateV d \<Rightarrow> True | _ \<Rightarrow> False)"

definition is_valid_date :: "fval \<Rightarrow> bool" where
  "is_valid_date v = (case v of DateV (Some t) \<Rightarrow> valid_time t | _ \<Rightarrow> False)"

definition file_record :: "obj \<Rightarrow> bool" where
  "file_record f =
     (distinct (map fst f) \<and>
      is_valid_date (get_prop f ''createdAt'') \<and>
      is_valid_date (get_prop f ''updatedAt'') \<and>
      list_all (\<lambda>(k, v). k = ''createdAt'' \<or> k = ''updatedAt'' \<or> \<not> is_date v) f)"

text \<open>
  The guarantee of the language that \<open>Date.parse(d.toISOString())\<close> is the time value
  of \<open>d\<close>, required of the built-ins at the time stamps of a record.
\<close>

definition date_survives :: "date_builtins \<Rightarrow> fval \<Rightarrow> bool" where
  "date_survives B v =
     (case v of DateV (Some t) \<Rightarrow> parseDate B (toISOString B t) = Some t | _ \<Rightarrow> True)"

definition dates_survive :: "date_builtins \<Rightarrow> obj \<Rightarrow> bool" where
  "dates_survive B f =
     (date_survives B (get_prop f ''createdAt'') \<and> date_survives B (get_prop f ''updatedAt''))"

text \<open>Built-ins and a store used to run the definitions on concrete inputs.\<close>

definition sample_builtins :: date_builtins where
  "sample_builtins =
     \<lparr>toISOString = (\<lambda>t. if t = 0 then ''1970-01-01T00:00:00.000Z''
                         else if t = 86400000 then ''1970-01-02T00:00:00.000Z'' else []),
      parseDate = (\<lambda>s. if s = ''1970-01-01T00:00:00.000Z'' then Some 0
                       else if s = ''1970-01-02T00:00:00.000Z'' then Some 86400000 else None)\<rparr>"

definition sample_record :: "string \<Rightarrow> fval \<Rightarrow> obj" where
  "sample_record i fld =
     [(''id'', Str i), (''title'', Str ''Notes''), (''folderId'', fld),
      (''tags'', StrList [''math'']), (''fileUrl'', Undefined),
      (''createdAt'', DateV (Some 0)), (''updatedAt'', DateV (Some 86400000))]"

definition sample_store :: localStorage where
  "sample_store =
     saveFoldersToLocalStorage sample_builtins
       [[(''id'', Str ''f1''), (''name'', Str ''Algebra''), (''count'', Num 1)]]
       (saveFilesToLocalStorage sample_builtins [sample_record ''a'' (Str ''f1'')] Map.empty)"

section \<open>Deleting a folder (api.js, deleteFolder)\<close>

text \<open>
  The remote client is \<open>None\<close> when it is not initialised; otherwise it is represented
  by the outcome of the one request the function sends: the request throws, or it
  returns with or without an \<open>error\<close>.
\<close>

datatype delete_response = DeleteThrew js_error | DeleteReturned "js_error option"

definition deleteFolder ::
  "date_builtins \<Rightarrow> delete_response option \<Rightarrow> string \<Rightarrow> localStorage \<Rightarrow> api_result \<times> localStorage" where
  "deleteFolder B supabase fid store =
     (case supabase of
        None \<Rightarrow> deleteFolderFromLocalStorage B fid store
      | Some (DeleteReturned (Some err)) \<Rightarrow> (Failure (message err), store)
      | Some (DeleteReturned None) \<Rightarrow> (Success None, store)
      | Some (DeleteThrew err) \<Rightarrow> (Failure (message err), store))"

text \<open>
  What a successful remote deletion does to the tables, by the schema in the source
  (\<open>folder_id UUID REFERENCES public.folders(id) ON DELETE SET NULL\<close>): the folder row
  goes, and every file row that referred to it gets \<open>folder_id = NULL\<close>.
\<close>

record remote_tables =
  files_table :: "obj list"
  folders_table :: "obj list"

definition remote_delete_folder :: "string \<Rightarrow> remote_tables \<Rightarrow> remote_tables" where
  "remote_delete_folder fid db =
     \<lparr>files_table =
        map (\<lambda>r. if get_prop r ''folder_id'' = Str fid then set_prop ''folder_id'' Null r else r)
          (files_table db),
      folders_table = filter (\<lambda>r. get_prop r ''id'' \<noteq> Str fid) (folders_table db)\<rparr>"

section \<open>Creating a file (api.js, createFile)\<close>

text \<open>
  One \<open>insert(...).select()\<close> request either throws or returns \<open>{data, error}\<close>.
  The remote client is represented by the outcome of each attempt, by attempt number.
\<close>

datatype insert_response = InsertThrew js_error | InsertReturned "obj list option" "js_error option"

datatype effect = InsertAttempt nat | Sleep nat

text \<open>\<open>e.message || JSON.stringify(e)\<close>\<close>

definition error_text :: "js_error \<Rightarrow> string" where
  "error_text e = (if truthy_opt_str (message e) then or_empty_str (message e) else json_text e)"

text \<open>\<open>(lastError && (lastError.message || JSON.stringify(lastError))) || 'Unknown error'\<close>\<close>

definition final_message :: "js_error option \<Rightarrow> string" where
  "final_message lastError =
     (case lastError of
        None \<Rightarrow> ''Unknown error''
      | Some e \<Rightarrow> if truthy_str (error_text e) then error_text e else ''Unknown error'')"

text \<open>The test that stops the retries, on \<open>(error.message || '').toLowerCase()\<close>.\<close>

definition no_retry :: "js_error \<Rightarrow> bool" where
  "no_retry e =
     (let msg = toLowerCase (or_empty_str (message e))
      in str_includes msg ''permission'' \<or> str_includes msg ''forbidden'' \<or>
         str_includes msg ''not authorized'' \<or> str_includes msg ''duplicate'')"

text \<open>
  The body of the \<open>try\<close> of one attempt: it returns from \<open>createFile\<close>, or it records
  \<open>lastError\<close> and falls through to the back-off.
\<close>

datatype attempt_outcome = Return api_result | Retry js_error

definition attempt_body :: "insert_response \<Rightarrow> attempt_outcome" where
  "attempt_body resp =
     (case resp of
        InsertThrew err \<Rightarrow> Retry err
      | InsertReturned dat (Some err) \<Rightarrow>
          if no_retry err then Return (Failure (Some (error_text err))) else Retry err
      | InsertReturned dat None \<Rightarrow>
          (case dat of
             Some (created # rest) \<Rightarrow> Return (Success (Some created))
           | _ \<Rightarrow> Retry \<lparr>message = Some ''Empty response from insert'',
                        json_text = ''{\"message\":\"Empty response from insert\"}''\<rparr>))"

definition maxAttempts :: nat where
  "maxAttempts = 3"

function createFile_loop ::
  "(nat \<Rightarrow> insert_response) \<Rightarrow> nat \<Rightarrow> js_error option \<Rightarrow> effect list \<Rightarrow> api_result \<times> effect list" where
  "createFile_loop request attempt lastError trace =
     (if attempt \<le> maxAttempts then
        (case attempt_body (request attempt) of
           Return r \<Rightarrow> (r, trace @ [InsertAttempt attempt])
         | Retry e \<Rightarrow>
             createFile_loop request (attempt + 1) (Some e)
               (if attempt < maxAttempts
                then trace @ [InsertAttempt attempt, Sleep (250 * attempt)]
                else trace @ [InsertAttempt attempt]))
      else (Failure (Some (final_message lastError)), trace))"
  by pat_completeness auto
termination
  by (relation "measure (\<lambda>(request, attempt, lastError, trace). Suc maxAttempts - attempt)") auto

text \<open>
  \<open>createFile\<close>: the local fallback when the client is not initialised, the retry loop
  otherwise.  The result comes with the store it leaves and the requests and waits made.
\<close>

definition createFile ::
  "date_builtins \<Rightarrow> (nat \<Rightarrow> insert_response) option \<Rightarrow> obj \<Rightarrow> string \<Rightarrow> int \<Rightarrow> int \<Rightarrow>
     localStorage \<Rightarrow> api_result \<times> localStorage \<times> effect list" where
  "createFile B supabase fileData uuid now1 now2 store =
     (case supabase of
        None \<Rightarrow>
          (let (r, store') = createFileInLocalStorage B fileData uuid now1 now2 store
           in (r, store', []))
      | Some request \<Rightarrow>
          (let (r, trace) = createFile_loop request 1 None []
           in (r, store, trace)))"

text \<open>What writing and then parsing makes of one property (omitted when \<open>None\<close>).\<close>

definition reparse :: "date_builtins \<Rightarrow> string \<times> fval \<Rightarrow> (string \<times> fval) option" where
  "reparse B = (\<lambda>(k, v). map_option (\<lambda>j. (k, of_json j)) (to_json B v))"


text \<open>Remote clients used to run \<open>createFile\<close> on concrete inputs.\<close>

definition sample_flaky_request :: "nat \<Rightarrow> insert_response" where
  "sample_flaky_request n =
     (if n = 3 then InsertReturned (Some [[(''id'', Str ''42''), (''title'', Str ''Notes'')]]) None
      else InsertThrew \<lparr>message = Some ''Failed to fetch'', json_text = ''{}''\<rparr>)"

definition sample_denied_request :: "nat \<Rightarrow> insert_response" where
  "sample_denied_request n =
     InsertReturned None
       (Some \<lparr>message = Some ''Permission denied for table files'', json_text = ''{}''\<rparr>)"

definition sample_failing_request :: "nat \<Rightarrow> insert_response" where
  "sample_failing_request n =
     (if n = 3 then InsertReturned (Some []) None
      else InsertReturned None (Some \<lparr>message = Some ''timeout'', json_text = ''{}''\<rparr>))"

definition sample_throwing_request :: "nat \<Rightarrow> insert_response" where
  "sample_throwing_request n =
     InsertThrew \<lparr>message = Some ''permission denied for table files'', json_text = ''{}''\<rparr>"

section \<open>Sign-up (auth.js, signUp)\<close>

text \<open>
  The remote client as \<open>signUp\<close> uses it: each of the four requests either throws or
  returns.  The profile lookup returns the row it found, if any (its \<open>error\<close> is not
  read); the identity creation returns the id of the created user, if any, whether a
  session was opened, and an optional error; the two profile writes return an optional
  error.
\<close>

datatype lookup_response = LookupThrew js_error | LookupReturned "obj option"

datatype auth_response = AuthThrew js_error | AuthReturned "string option" bool "js_error option"

datatype write_response = WriteThrew js_error | WriteReturned "js_error option"

record auth_client =
  lookup_username :: "string \<Rightarrow> lookup_response"
  auth_signUp :: "string \<Rightarrow> string \<Rightarrow> string \<Rightarrow> auth_response"
  upsert_profile :: "string \<Rightarrow> string \<Rightarrow> string \<Rightarrow> write_response"
  update_username :: "string \<Rightarrow> string \<Rightarrow> write_response"

text \<open>The requests \<open>signUp\<close> sends and the delay it waits, in order.\<close>

datatype auth_call =
  LookupUsername string
| AuthSignUp string string string
| Delay nat
| UpsertProfile string string string
| UpdateUsername string string

text \<open>\<open>{success: true, message?}\<close> and \<open>{success: false, error}\<close>\<close>

datatype signup_result = SignedUp "string option" | SignUpFailed "string option"

text \<open>The pattern \<open>/^[a-z0-9_]{3,20}$/\<close>\<close>

definition username_chars :: string where
  "username_chars = ''abcdefghijklmnopqrstuvwxyz0123456789_''"

definition valid_username :: "string \<Rightarrow> bool" where
  "valid_username u =
     (3 \<le> length u \<and> length u \<le> 20 \<and> list_all (\<lambda>c. c \<in> set username_chars) u)"

definition signUp_finish :: "bool \<Rightarrow> auth_call list \<Rightarrow> signup_result \<times> auth_call list" where
  "signUp_finish session trace =
     (if \<not> session
      then (SignedUp (Some ''Please check your email to confirm your account''), trace)
      else (SignedUp None, trace))"

definition signUp ::
  "auth_client option \<Rightarrow> string \<Rightarrow> string \<Rightarrow> string \<Rightarrow> signup_result \<times> auth_call list" where
  "signUp supabase email password username =
     (case supabase of
        None \<Rightarrow> (SignUpFailed (Some ''Supabase not initialized''), [])
      | Some client \<Rightarrow>
          if \<not> truthy_str username \<or> \<not> valid_username username then
            (SignUpFailed (Some
               ''Username must be 3-20 lowercase characters (letters, numbers, underscores only)''),
             [])
          else
            (let lower = toLowerCase username;
                 trace1 = [LookupUsername lower]
             in case lookup_username client lower of
                  LookupThrew e \<Rightarrow> (SignUpFailed (message e), trace1)
                | LookupReturned (Some existingUser) \<Rightarrow>
                    (SignUpFailed (Some ''Username is already taken''), trace1)
                | LookupReturned None \<Rightarrow>
                    (let trace2 = trace1 @ [AuthSignUp email password lower]
                     in case auth_signUp client email password lower of
                          AuthThrew e \<Rightarrow> (SignUpFailed (message e), trace2)
                        | AuthReturned user session (Some err) \<Rightarrow>
                            (SignUpFailed (message err), trace2)
                        | AuthReturned None session None \<Rightarrow> (SignedUp None, trace2)
                        | AuthReturned (Some uid) session None \<Rightarrow>
                            (let trace3 = trace2 @ [Delay 500, UpsertProfile uid email lower]
                             in case upsert_profile client uid email lower of
                                  WriteThrew e \<Rightarrow> (SignUpFailed (message e), trace3)
                                | WriteReturned None \<Rightarrow> signUp_finish session trace3
                                | WriteReturned (Some profileError) \<Rightarrow>
                                    (let trace4 = trace3 @ [UpdateUsername uid lower]
                                     in case update_username client uid lower of
                                          WriteThrew e \<Rightarrow> (SignUpFailed (message e), trace4)
                                        | WriteReturned updateError \<Rightarrow>
                                            signUp_finish session trace4)))))"

text \<open>A client used to run \<open>signUp\<close> on concrete inputs: the name \<open>kaustuv\<close> is taken.\<close>

definition sample_client :: auth_client where
  "sample_client =
     \<lparr>lookup_username =
        (\<lambda>u. if u = ''kaustuv'' then LookupReturned (Some [(''username'', Str ''kaustuv'')])
              else LookupReturned None),
      auth_signUp = (\<lambda>email password u. AuthReturned (Some ''u1'') False None),
      upsert_profile = (\<lambda>uid email u. WriteReturned None),
      update_username = (\<lambda>uid u. WriteReturned None)\<rparr>"

section \<open>Formatting a file size (api.js, formatFileSize)\<close>

text \<open>
  \<open>bytes\<close> is the size of a \<open>File\<close>, a natural number.  The index
  \<open>Math.floor(Math.log(bytes) / Math.log(k))\<close> is taken in exact real arithmetic.
  The quotient \<open>bytes / Math.pow(k, i)\<close> is exact in double precision (a division by a
  power of two), \<open>toFixed(1)\<close> rounds it to tenths, a tie going up, and \<open>parseFloat\<close>
  followed by the conversion to a string drops a final \<open>.0\<close>.  Reading \<open>sizes[i]\<close>
  outside the array gives \<open>undefined\<close>, which the concatenation prints as such.
\<close>

definition sizes :: "string list" where
  "sizes = [''Bytes'', ''KB'', ''MB'', ''GB'']"

definition unit_index :: "nat \<Rightarrow> nat" where
  "unit_index bytes = nat \<lfloor>ln (real bytes) / ln (real 1024)\<rfloor>"

fun digits :: "nat \<Rightarrow> string" where
  "digits n =
     (if n < 10 then [''0123456789'' ! n]
      else digits (n div 10) @ [''0123456789'' ! (n mod 10)])"

definition one_decimal :: "nat \<Rightarrow> nat \<Rightarrow> string" where
  "one_decimal bytes divisor =
     (let tenths = (20 * bytes + divisor) div (2 * divisor)
      in if tenths mod 10 = 0 then digits (tenths div 10)
         else digits (tenths div 10) @ ''.'' @ digits (tenths mod 10))"

definition formatFileSize :: "nat \<Rightarrow> string" where
  "formatFileSize bytes =
     (if bytes = 0 then ''0 Bytes''
      else
        (let k = 1024;
             i = unit_index bytes
         in one_decimal bytes (k ^ i) @ '' '' @
            (if i < length sizes then sizes ! i else ''undefined'')))"

text \<open>A text made of decimal digits and at most dots.\<close>

definition numeric_text :: "string \<Rightarrow> bool" where
  "numeric_text s = (s \<noteq> [] \<and> list_all (\<lambda>c. c \<in> set ''0123456789.'') s)"

section \<open>Properties of the string primitives\<close>

lemma str_includes_iff: "str_includes s q \<longleftrightarrow> (\<exists>ps ss. s = ps @ q @ ss)"
proof (induction s q rule: str_includes.induct)
  case (1 s)
  then show ?case by auto
next
  case (2 q qs)
  then show ?case by auto
next
  case (3 c cs q qs)
  have "sublist (q # qs) (c # cs) \<longleftrightarrow> prefix (q # qs) (c # cs) \<or> sublist (q # qs) cs"
    by (rule sublist_Cons_right)
  with 3 show ?case unfolding sublist_def by simp
qed

lemma toLowerChar_idem: "toLowerChar (toLowerChar c) = toLowerChar c"
  by (simp add: toLowerChar_def upper_letters_def lower_letters_def)

lemma toLowerCase_idem: "toLowerCase (toLowerCase s) = toLowerCase s"
  by (simp add: toLowerCase_def toLowerChar_idem)

lemma isWhitespace_toLowerChar: "isWhitespace (toLowerChar c) = isWhitespace c"
  by (simp add: toLowerChar_def upper_letters_def lower_letters_def isWhitespace_def)

section \<open>Properties of applyFilters\<close>

lemma tag_filter_pred_iff:
  "tag_filter_pred sel f \<longleftrightarrow> (\<exists>tag \<in> set sel. tag \<in> set (or_empty_list (tags f)))"
  by (simp add: tag_filter_pred_def list_ex_iff)

lemma search_filter_pred_iff:
  "search_filter_pred q f \<longleftrightarrow>
     (str_includes (toLowerCase (or_empty_str (title f))) q \<or>
      str_includes (toLowerCase (or_empty_str (description f))) q \<or>
      (\<exists>t \<in> set (or_empty_list (tags f)). str_includes (toLowerCase t) q))"
  by (simp add: search_filter_pred_def list_ex_iff)

lemma truthy_opt_str_iff: "truthy_opt_str v \<longleftrightarrow> v \<noteq> None \<and> v \<noteq> Some []"
  by (cases v) (simp_all add: truthy_opt_str_def truthy_str_def)

lemma guarded_filter: "(if g then filter P xs else xs) = filter (\<lambda>x. \<not> g \<or> P x) xs"
  by simp

lemma filteredFiles_applyFilters:
  "filteredFiles (applyFilters st) = filter (code_visible st) (files st)"
proof -
  have "filteredFiles (applyFilters st) =
        filter (\<lambda>f. \<not> truthy_str (searchQuery st) \<or>
                     search_filter_pred (toLowerCase (searchQuery st)) f)
          (filter (\<lambda>f. \<not> length (selectedTags st) > 0 \<or> tag_filter_pred (selectedTags st) f)
            (filter (\<lambda>f. \<not> truthy_opt_str (folderFilter st) \<or> folderId f = folderFilter st)
              (filter (\<lambda>f. \<not> typeFilter st \<noteq> ''all'' \<or> ftype f = typeFilter st)
                 (files st))))"
    unfolding applyFilters_def Let_def guarded_filter by simp
  also have "\<dots> = filter (code_visible st) (files st)"
    unfolding filter_filter
    by (rule filter_cong[OF refl])
       (auto simp: code_visible_def tag_filter_pred_iff search_filter_pred_iff
          truthy_opt_str_iff truthy_str_def)
  finally show ?thesis .
qed

text \<open>
  Claim C1, as stated: the visible subset is the input filtered by the conjunction of the
  four predicates, the folder predicate being skipped only when the folder filter is
  \<open>null\<close>.  This fails when the folder filter is the empty string: the guard
  \<open>if (appState.folderFilter)\<close> is false for it, so no folder filtering happens and a
  file of folder \<open>f1\<close> stays visible, while the stated predicate rejects it.
\<close>

theorem C1_applyFilters_counterexample:
  "filteredFiles (applyFilters
       (sample_state [sample_file ''a'' ''Notes'' (Some ''f1'') []] ''all'' (Some '''') [] ''''))
   \<noteq> filter (spec_visible
       (sample_state [sample_file ''a'' ''Notes'' (Some ''f1'') []] ''all'' (Some '''') [] ''''))
       (files (sample_state [sample_file ''a'' ''Notes'' (Some ''f1'') []] ''all'' (Some '''') [] ''''))"
  by (simp add: applyFilters_def spec_visible_def sample_state_def sample_file_def
      truthy_opt_str_def truthy_str_def Let_def)

text \<open>
  Claim C1, amended: for every state, \<open>applyFilters\<close> changes only \<open>filteredFiles\<close>, and
  sets it to the files that pass all four predicates: type equality (unless the type
  filter is \<open>all\<close>), folder equality (unless the folder filter is \<open>null\<close> or the
  empty string), at least one selected tag among the file's tags (unless no tag is
  selected), and the lower-cased query being a substring of the lower-cased title,
  description or some tag (unless the query is empty).
\<close>

theorem C1_applyFilters_intersection:
  "applyFilters st = st\<lparr>filteredFiles := filter (code_visible st) (files st)\<rparr>"
proof -
  have "applyFilters st = st\<lparr>filteredFiles := filteredFiles (applyFilters st)\<rparr>"
    by (simp add: applyFilters_def Let_def)
  then show ?thesis by (simp only: filteredFiles_applyFilters)
qed

theorem C1_applyFilters_intersection_witness:
  "filteredFiles (applyFilters
      (sample_state
         [sample_file ''a'' ''Linear Algebra'' (Some ''f1'') [''math''],
          sample_file ''b'' ''Poetry'' (Some ''f1'') [''verse''],
          sample_file ''c'' ''Algebra II'' (Some ''f2'') [''math'']]
         ''pdf'' (Some ''f1'') [''math''] ''ALGEBRA''))
   = [sample_file ''a'' ''Linear Algebra'' (Some ''f1'') [''math'']]"
  by (simp add: C1_applyFilters_intersection code_visible_def sample_state_def sample_file_def
      or_empty_str_def or_empty_list_def toLowerCase_def toLowerChar_def
      upper_letters_def lower_letters_def)

text \<open>
  Claim C2: for every file list and every combination of filters, every file in the
  filtered result of \<open>applyFilters\<close> is an element of the original file list.
\<close>

theorem C2_applyFilters_subset:
  "set (filteredFiles (applyFilters st)) \<subseteq> set (files st)"
  by (simp add: filteredFiles_applyFilters)

theorem C2_applyFilters_subset_witness:
  "set (filteredFiles (applyFilters
      (sample_state
         [sample_file ''a'' ''Linear Algebra'' (Some ''f1'') [''math''],
          sample_file ''b'' ''Poetry'' None [''verse'']]
         ''all'' None [''verse''] ''poe'')))
   \<subseteq> {sample_file ''a'' ''Linear Algebra'' (Some ''f1'') [''math''],
       sample_file ''b'' ''Poetry'' None [''verse'']}"
  using C2_applyFilters_subset
    [of "sample_state
         [sample_file ''a'' ''Linear Algebra'' (Some ''f1'') [''math''],
          sample_file ''b'' ''Poetry'' None [''verse'']]
         ''all'' None [''verse''] ''poe''"]
  by (simp add: sample_state_def)

section \<open>Properties of the folder counts and the file mutations\<close>

lemma read_prop_count_step:
  "read_prop (count_step m f) k =
     (if folderId f = Some k \<and> k \<noteq> [] \<and> k \<noteq> ''__proto__''
      then Some (plus_one (or_zero (read_prop m k))) else read_prop m k)"
  by (cases "folderId f") (auto simp: count_step_def read_prop_def write_prop_def truthy_str_def)

lemma reference_count_snoc:
  "reference_count (fs @ [f]) k = reference_count fs k + (if folderId f = Some k then 1 else 0)"
  by (simp add: reference_count_def)

lemma read_prop_foldl:
  "read_prop (foldl count_step Map.empty fs) k =
     (if k = ''__proto__'' then Some ProtoObj
      else if k \<in> set object_prototype_functions then
        (if reference_count fs k = 0 then Some (InheritedFn k)
         else Some (TextOf (InheritedFn k) (reference_count fs k)))
      else if k = [] \<or> reference_count fs k = 0 then None
      else Some (CountV (reference_count fs k)))"
proof (induction fs rule: rev_induct)
  case Nil
  then show ?case by (simp add: read_prop_def reference_count_def)
next
  case (snoc f fs)
  have ne: "[] \<notin> set object_prototype_functions"
    by (simp add: object_prototype_functions_def)
  have step: "read_prop (foldl count_step Map.empty (fs @ [f])) k =
      (if folderId f = Some k \<and> k \<noteq> [] \<and> k \<noteq> ''__proto__''
       then Some (plus_one (or_zero (read_prop (foldl count_step Map.empty fs) k)))
       else read_prop (foldl count_step Map.empty fs) k)"
    by (simp only: foldl_append foldl.simps read_prop_count_step)
  show ?case
    unfolding step snoc.IH
    using ne
    by (cases "k = ''__proto__''"; cases "k = []"; cases "k \<in> set object_prototype_functions";
        cases "folderId f = Some k"; cases "reference_count fs k = 0")
       (simp_all add: reference_count_snoc or_zero_def)
qed

lemma recalculateFolderCounts_eq:
  "recalculateFolderCounts fs fos =
     map (\<lambda>fo. fo\<lparr>count :=
            (if folder_id fo = ''__proto__'' then ProtoObj
             else if folder_id fo \<in> set object_prototype_functions then
               (if reference_count fs (folder_id fo) = 0 then InheritedFn (folder_id fo)
                else TextOf (InheritedFn (folder_id fo)) (reference_count fs (folder_id fo)))
             else if folder_id fo = [] then CountV 0
             else CountV (reference_count fs (folder_id fo)))\<rparr>) fos"
  by (simp add: recalculateFolderCounts_def Let_def read_prop_foldl or_zero_def)

lemma recalculateFolderCounts_length:
  "length (recalculateFolderCounts fs fos) = length fos"
  by (simp add: recalculateFolderCounts_def Let_def)

lemma recalculateFolderCounts_nth:
  assumes "i < length fos"
  shows "\<exists>c. recalculateFolderCounts fs fos ! i = (fos ! i)\<lparr>count := c\<rparr>"
    and "folder_id (fos ! i) = [] \<Longrightarrow>
         recalculateFolderCounts fs fos ! i = (fos ! i)\<lparr>count := CountV 0\<rparr>"
    and "folder_id (fos ! i) \<noteq> [] \<Longrightarrow> \<not> inherited_name (folder_id (fos ! i)) \<Longrightarrow>
         recalculateFolderCounts fs fos ! i =
           (fos ! i)\<lparr>count := CountV (reference_count fs (folder_id (fos ! i)))\<rparr>"
proof -
  have ne: "[] \<notin> set object_prototype_functions"
    by (simp add: object_prototype_functions_def)
  from assms have "recalculateFolderCounts fs fos ! i =
      (fos ! i)\<lparr>count := or_zero (read_prop (foldl count_step Map.empty fs) (folder_id (fos ! i)))\<rparr>"
    by (simp add: recalculateFolderCounts_def Let_def)
  then show "\<exists>c. recalculateFolderCounts fs fos ! i = (fos ! i)\<lparr>count := c\<rparr>"
    by (rule exI)
  assume "folder_id (fos ! i) = []"
  with assms ne show "recalculateFolderCounts fs fos ! i = (fos ! i)\<lparr>count := CountV 0\<rparr>"
    by (simp add: recalculateFolderCounts_eq)
next
  assume "folder_id (fos ! i) \<noteq> []" and "\<not> inherited_name (folder_id (fos ! i))"
  with assms show "recalculateFolderCounts fs fos ! i =
           (fos ! i)\<lparr>count := CountV (reference_count fs (folder_id (fos ! i)))\<rparr>"
    by (simp add: recalculateFolderCounts_eq inherited_name_def)
qed

text \<open>
  What the inherited properties do to a folder whose id names one: with no file in it the
  count is the inherited function, and with one file the text of that function followed
  by \<open>1\<close>.
\<close>

lemma recalculateFolderCounts_inherited:
  "map count (recalculateFolderCounts [] [\<lparr>folder_id = ''constructor'', name = ''Misc'', count = CountV 0\<rparr>])
     = [InheritedFn ''constructor'']"
  "map count (recalculateFolderCounts [sample_file ''a'' ''Notes'' (Some ''constructor'') []]
       [\<lparr>folder_id = ''constructor'', name = ''Misc'', count = CountV 0\<rparr>])
     = [TextOf (InheritedFn ''constructor'') 1]"
  by (simp_all add: recalculateFolderCounts_eq object_prototype_functions_def
      reference_count_def sample_file_def)

lemma files_applyFilters: "files (applyFilters st) = files st"
  by (simp add: applyFilters_def Let_def)

lemma folders_applyFilters: "folders (applyFilters st) = folders st"
  by (simp add: applyFilters_def Let_def)

lemma handleDeleteFile_success:
  assumes "find (\<lambda>f. file_id f = fileId) (files st) = Some file" and "confirmed" and "success result"
  shows "files (handleDeleteFile fileId confirmed result st) = filter (\<lambda>f. file_id f \<noteq> fileId) (files st)"
    and "folders (handleDeleteFile fileId confirmed result st) =
         recalculateFolderCounts (files (handleDeleteFile fileId confirmed result st)) (folders st)"
  using assms by (simp_all add: handleDeleteFile_def Let_def files_applyFilters folders_applyFilters)

lemma handleFileFormSubmit_success:
  assumes "success result"
  shows "folders (handleFileFormSubmit fileId d result uuid now1 now2 st) =
         recalculateFolderCounts (files (handleFileFormSubmit fileId d result uuid now1 now2 st)) (folders st)"
  using assms
  by (simp add: handleFileFormSubmit_def Let_def files_applyFilters folders_applyFilters
       split: option.splits)

lemma handleFileFormSubmit_failure:
  "\<not> success result \<Longrightarrow> handleFileFormSubmit fileId d result uuid now1 now2 st = st"
  by (simp add: handleFileFormSubmit_def)

lemma handleDeleteFile_failure:
  "\<not> success result \<Longrightarrow> handleDeleteFile fileId confirmed result st = st"
  by (simp add: handleDeleteFile_def split: option.splits)

text \<open>
  Claim C3, as stated: every folder's recomputed count is the exact number of files whose
  \<open>folderId\<close> equals the folder's id.  This fails for a folder whose id is the empty
  string: a file whose \<open>folderId\<close> is the empty string is skipped by
  \<open>if (f.folderId)\<close>, so the folder gets count 0 although one file refers to it.
\<close>

theorem C3_folder_counts_counterexample:
  "recalculateFolderCounts [sample_file ''a'' ''Notes'' (Some '''') []]
       [\<lparr>folder_id = '''', name = ''Misc'', count = CountV 7\<rparr>]
   \<noteq> [\<lparr>folder_id = '''', name = ''Misc'',
        count = CountV (reference_count [sample_file ''a'' ''Notes'' (Some '''') []] '''')\<rparr>]"
  by (simp add: recalculateFolderCounts_def count_step_def read_prop_def or_zero_def
      truthy_str_def object_prototype_functions_def reference_count_def sample_file_def)

text \<open>
  Claim C3, amended: for every list of files and every list of folders,
  \<open>recalculateFolderCounts\<close> returns the same folders with only their counts replaced;
  a folder whose id is a non-empty string that is not the name of a property every
  object inherits (\<open>__proto__\<close>, \<open>constructor\<close>, \<open>toString\<close> and the like) gets the
  exact number of files whose \<open>folderId\<close> equals its id, and a folder whose id is the
  empty string gets 0 (files whose \<open>folderId\<close> is \<open>null\<close>, absent or empty count
  toward no folder); and the recomputation is applied to the new file list after every
  successful file mutation of the controller: the deletion in \<open>handleDeleteFile\<close> and
  the update or creation in \<open>handleFileFormSubmit\<close>.
\<close>

theorem C3_folder_counts:
  "length (recalculateFolderCounts fs fos) = length fos
   \<and> (\<forall>i < length fos.
        (\<exists>c. recalculateFolderCounts fs fos ! i = (fos ! i)\<lparr>count := c\<rparr>) \<and>
        (folder_id (fos ! i) = [] \<longrightarrow>
           recalculateFolderCounts fs fos ! i = (fos ! i)\<lparr>count := CountV 0\<rparr>) \<and>
        (folder_id (fos ! i) \<noteq> [] \<and> \<not> inherited_name (folder_id (fos ! i)) \<longrightarrow>
           recalculateFolderCounts fs fos ! i =
             (fos ! i)\<lparr>count := CountV (reference_count fs (folder_id (fos ! i)))\<rparr>))
   \<and> (find (\<lambda>f. file_id f = fileId) (files st) \<noteq> None \<and> success result \<longrightarrow>
        files (handleDeleteFile fileId True result st) =
          filter (\<lambda>f. file_id f \<noteq> fileId) (files st) \<and>
        folders (handleDeleteFile fileId True result st) =
          recalculateFolderCounts (files (handleDeleteFile fileId True result st)) (folders st))
   \<and> (success result \<longrightarrow>
        folders (handleFileFormSubmit fileId d result uuid now1 now2 st) =
          recalculateFolderCounts
            (files (handleFileFormSubmit fileId d result uuid now1 now2 st)) (folders st))"
proof -
  have counts: "\<forall>i < length fos.
        (\<exists>c. recalculateFolderCounts fs fos ! i = (fos ! i)\<lparr>count := c\<rparr>) \<and>
        (folder_id (fos ! i) = [] \<longrightarrow>
           recalculateFolderCounts fs fos ! i = (fos ! i)\<lparr>count := CountV 0\<rparr>) \<and>
        (folder_id (fos ! i) \<noteq> [] \<and> \<not> inherited_name (folder_id (fos ! i)) \<longrightarrow>
           recalculateFolderCounts fs fos ! i =
             (fos ! i)\<lparr>count := CountV (reference_count fs (folder_id (fos ! i)))\<rparr>)"
    using recalculateFolderCounts_nth[of _ fos fs] by blast
  have del: "files (handleDeleteFile fileId True result st) =
          filter (\<lambda>f. file_id f \<noteq> fileId) (files st) \<and>
        folders (handleDeleteFile fileId True result st) =
          recalculateFolderCounts (files (handleDeleteFile fileId True result st)) (folders st)"
    if a: "find (\<lambda>f. file_id f = fileId) (files st) \<noteq> None \<and> success result"
  proof -
    from a obtain fl where f: "find (\<lambda>f. file_id f = fileId) (files st) = Some fl"
      by blast
    from a have s: "success result" by simp
    from handleDeleteFile_success[OF f TrueI s] show ?thesis by blast
  qed
  have sub: "folders (handleFileFormSubmit fileId d result uuid now1 now2 st) =
          recalculateFolderCounts
            (files (handleFileFormSubmit fileId d result uuid now1 now2 st)) (folders st)"
    if "success result"
    using that by (rule handleFileFormSubmit_success)
  from recalculateFolderCounts_length[of fs fos] counts del sub show ?thesis by blast
qed

theorem C3_folder_counts_witness:
  "map count (recalculateFolderCounts sample_files sample_folders) = [CountV 2, CountV 0]
   \<and> map folder_id sample_folders = [''f1'', ''f2'']
   \<and> \<not> inherited_name ''f1'' \<and> \<not> inherited_name ''f2''
   \<and> find (\<lambda>f. file_id f = ''a'') (files ((sample_state sample_files ''all'' None [] '''')
         \<lparr>folders := sample_folders\<rparr>)) \<noteq> None
   \<and> success \<lparr>success = True, data_id = None\<rparr>
   \<and> map count (folders (handleDeleteFile ''a'' True \<lparr>success = True, data_id = None\<rparr>
         ((sample_state sample_files ''all'' None [] '''')\<lparr>folders := sample_folders\<rparr>)))
       = [CountV 1, CountV 0]"
proof -
  let ?st = "(sample_state sample_files ''all'' None [] '''')\<lparr>folders := sample_folders\<rparr>"
  let ?r = "\<lparr>success = True, data_id = None\<rparr>"
  have found: "find (\<lambda>f. file_id f = ''a'') (files ?st) \<noteq> None"
    by (simp add: sample_state_def sample_files_def sample_file_def)
  have ok: "success ?r" by simp
  have ids: "map folder_id sample_folders = [''f1'', ''f2'']"
    by (simp add: sample_folders_def)
  have ni: "\<not> inherited_name ''f1''" "\<not> inherited_name ''f2''"
    by (simp_all add: inherited_name_def object_prototype_functions_def)
  have two: "map count xs = [count (xs ! 0), count (xs ! 1)]" if "length xs = 2" for xs :: "folder list"
    using that by (auto simp: numeral_2_eq_2 length_Suc_conv)
  have cnt: "map count (recalculateFolderCounts gs sample_folders) =
        [CountV (reference_count gs ''f1''), CountV (reference_count gs ''f2'')]" for gs
  proof -
    note C = C3_folder_counts[of gs sample_folders]
    from C have len: "length (recalculateFolderCounts gs sample_folders) = 2"
      by (simp add: sample_folders_def)
    have l2: "(0::nat) < length sample_folders" "(1::nat) < length sample_folders"
      by (simp_all add: sample_folders_def)
    have f0: "folder_id (sample_folders ! 0) = ''f1''" "folder_id (sample_folders ! 1) = ''f2''"
      by (simp_all add: sample_folders_def)
    from C l2(1) f0(1) ni(1)
    have c0: "recalculateFolderCounts gs sample_folders ! 0 =
        (sample_folders ! 0)\<lparr>count := CountV (reference_count gs ''f1'')\<rparr>"
      by (metis list.distinct(1))
    from C l2(2) f0(2) ni(2)
    have c1: "recalculateFolderCounts gs sample_folders ! 1 =
        (sample_folders ! 1)\<lparr>count := CountV (reference_count gs ''f2'')\<rparr>"
      by (metis list.distinct(1))
    show ?thesis unfolding two[OF len] c0 c1 by simp
  qed
  have c1: "map count (recalculateFolderCounts sample_files sample_folders) = [CountV 2, CountV 0]"
    unfolding cnt by (simp add: reference_count_def sample_files_def sample_file_def)
  from C3_folder_counts[of _ _ "''a''" ?st ?r] found ok
  have fs: "files (handleDeleteFile ''a'' True ?r ?st) = filter (\<lambda>f. file_id f \<noteq> ''a'') (files ?st)"
    and fo: "folders (handleDeleteFile ''a'' True ?r ?st) =
       recalculateFolderCounts (files (handleDeleteFile ''a'' True ?r ?st)) (folders ?st)"
    by blast+
  have fost: "folders ?st = sample_folders" by (simp add: sample_state_def)
  have c2: "map count (folders (handleDeleteFile ''a'' True ?r ?st)) = [CountV 1, CountV 0]"
    unfolding fo fs fost cnt
    by (simp add: reference_count_def sample_state_def sample_files_def sample_file_def)
  from c1 ids ni found ok c2 show ?thesis by blast
qed

section \<open>Properties of tag editing\<close>

lemma trim_toLowerCase: "trim (toLowerCase s) = toLowerCase (trim s)"
  by (simp add: trim_def toLowerCase_def dropWhile_map rev_map comp_def isWhitespace_toLowerChar)

lemma dropWhile_id: "xs = [] \<or> \<not> P (hd xs) \<Longrightarrow> dropWhile P xs = xs"
  by (cases xs) auto

lemma trim_idem: "trim (trim s) = trim s"
proof -
  define t where "t = dropWhile isWhitespace s"
  define u where "u = rev (dropWhile isWhitespace (rev t))"
  have u: "trim s = u" by (simp add: trim_def t_def u_def)
  have rear: "dropWhile isWhitespace (rev u) = rev u"
    by (simp add: u_def)
  have "t = [] \<or> \<not> isWhitespace (hd t)"
    unfolding t_def using hd_dropWhile[of isWhitespace s] by blast
  moreover have "t = u @ rev (takeWhile isWhitespace (rev t))"
  proof -
    have "t = rev (takeWhile isWhitespace (rev t) @ dropWhile isWhitespace (rev t))"
      by (simp only: takeWhile_dropWhile_id rev_rev_ident)
    then show ?thesis by (simp only: rev_append u_def)
  qed
  ultimately have "u = [] \<or> \<not> isWhitespace (hd u)"
    by (metis hd_append2 append_is_Nil_conv)
  then have front: "dropWhile isWhitespace u = u" by (rule dropWhile_id)
  show ?thesis unfolding u by (simp add: trim_def front rear)
qed

lemma norm_trimmed: "trim (toLowerCase (trim s)) = toLowerCase (trim s)"
  by (simp add: trim_toLowerCase trim_idem)

lemma addTagToList_idem:
  "toLowerCase (trim s) = toLowerCase (trim s') \<Longrightarrow>
   addTagToList s' (addTagToList s ts) = addTagToList s ts"
  by (simp add: addTagToList_def Let_def)

lemma addTagToList_blank: "trim s = [] \<Longrightarrow> addTagToList s ts = ts"
  by (simp add: addTagToList_def Let_def truthy_str_def toLowerCase_def)

lemma addTagToList_distinct: "distinct ts \<Longrightarrow> distinct (addTagToList s ts)"
  by (simp add: addTagToList_def Let_def)

lemma tags_reachable_distinct: "tags_reachable ts \<Longrightarrow> distinct ts"
  by (induction rule: tags_reachable.induct)
     (simp_all add: addTagToList_distinct removeTagFromList_def clearFileTags_def)

lemma tags_reachable_normal:
  "tags_reachable ts \<Longrightarrow> t \<in> set ts \<Longrightarrow> t \<noteq> [] \<and> trim t = t \<and> toLowerCase t = t"
proof (induction rule: tags_reachable.induct)
  case initial
  then show ?case by simp
next
  case (add ts tag)
  then show ?case
    by (auto simp: addTagToList_def Let_def truthy_str_def norm_trimmed toLowerCase_idem
        split: if_splits)
next
  case (remove ts tag)
  then show ?case by (simp add: removeTagFromList_def)
next
  case (clear ts)
  then show ?case by (simp add: clearFileTags_def)
qed

lemma addTagToList_member:
  "toLowerCase (trim s) \<noteq> [] \<Longrightarrow> toLowerCase (trim s) \<in> set (addTagToList s ts)"
  by (simp add: addTagToList_def Let_def truthy_str_def)

lemma count_list_distinct: "distinct xs \<Longrightarrow> x \<in> set xs \<Longrightarrow> count_list xs x = 1"
  by (induction xs) (auto simp: count_list_0_iff)

text \<open>
  Claim C4: adding a tag is idempotent up to case folding.  For every tag list, adding a
  second string that trims and lower-cases to the same value as the first changes
  nothing; for every value \<open>currentTags\<close> can take, the list then holds exactly one
  entry for the case-folded tag; the only entry an addition can store is the trimmed,
  lower-cased input, which is itself trimmed and lower-cased, and so is every entry of
  every list \<open>currentTags\<close> can hold; and adding an empty or white-space-only string
  leaves the list unchanged.
\<close>

theorem C4_addTagToList_idempotent:
  "(toLowerCase (trim s) = toLowerCase (trim s') \<longrightarrow>
      addTagToList s' (addTagToList s ts) = addTagToList s ts)
   \<and> (tags_reachable ts \<and> toLowerCase (trim s) = toLowerCase (trim s') \<and> trim s \<noteq> [] \<longrightarrow>
      count_list (addTagToList s' (addTagToList s ts)) (toLowerCase (trim s)) = 1)
   \<and> set (addTagToList s ts) \<subseteq> set ts \<union> {toLowerCase (trim s)}
   \<and> trim (toLowerCase (trim s)) = toLowerCase (trim s)
   \<and> toLowerCase (toLowerCase (trim s)) = toLowerCase (trim s)
   \<and> (tags_reachable ts \<longrightarrow>
        (\<forall>t \<in> set (addTagToList s ts). t \<noteq> [] \<and> trim t = t \<and> toLowerCase t = t))
   \<and> (trim s = [] \<longrightarrow> addTagToList s ts = ts)"
proof (intro conjI impI)
  assume "toLowerCase (trim s) = toLowerCase (trim s')"
  then show "addTagToList s' (addTagToList s ts) = addTagToList s ts"
    by (rule addTagToList_idem)
next
  assume a: "tags_reachable ts \<and> toLowerCase (trim s) = toLowerCase (trim s') \<and> trim s \<noteq> []"
  then have same: "addTagToList s' (addTagToList s ts) = addTagToList s ts"
    by (simp add: addTagToList_idem)
  from a have "distinct (addTagToList s ts)"
    by (simp add: tags_reachable_distinct addTagToList_distinct)
  moreover have "toLowerCase (trim s) \<in> set (addTagToList s ts)"
  proof (rule addTagToList_member)
    from a have "trim s \<noteq> []" by blast
    then show "toLowerCase (trim s) \<noteq> []" by (simp add: toLowerCase_def)
  qed
  ultimately show "count_list (addTagToList s' (addTagToList s ts)) (toLowerCase (trim s)) = 1"
    unfolding same by (rule count_list_distinct)
next
  show "set (addTagToList s ts) \<subseteq> set ts \<union> {toLowerCase (trim s)}"
    by (auto simp: addTagToList_def Let_def)
next
  show "trim (toLowerCase (trim s)) = toLowerCase (trim s)"
    by (rule norm_trimmed)
next
  show "toLowerCase (toLowerCase (trim s)) = toLowerCase (trim s)"
    by (rule toLowerCase_idem)
next
  assume "tags_reachable ts"
  then have "tags_reachable (addTagToList s ts)"
    by (rule tags_reachable.add)
  then show "\<forall>t \<in> set (addTagToList s ts). t \<noteq> [] \<and> trim t = t \<and> toLowerCase t = t"
    using tags_reachable_normal by blast
next
  assume "trim s = []"
  then show "addTagToList s ts = ts"
    by (rule addTagToList_blank)
qed

theorem C4_addTagToList_idempotent_witness:
  "tags_reachable (addTagToList ''physics'' [])
   \<and> toLowerCase (trim ''  Math '') = toLowerCase (trim ''MATH'')
   \<and> trim ''  Math '' \<noteq> []
   \<and> addTagToList ''MATH'' (addTagToList ''  Math '' (addTagToList ''physics'' []))
       = [''physics'', ''math'']
   \<and> count_list (addTagToList ''MATH'' (addTagToList ''  Math '' (addTagToList ''physics'' [])))
       ''math'' = 1
   \<and> trim ''   '' = []
   \<and> addTagToList ''   '' [''physics''] = [''physics'']"
proof -
  have r: "tags_reachable (addTagToList ''physics'' [])"
    by (intro tags_reachable.add tags_reachable.initial)
  have n: "toLowerCase (trim ''  Math '') = ''math''" "toLowerCase (trim ''MATH'') = ''math''"
    by (simp_all add: trim_def isWhitespace_def toLowerCase_def toLowerChar_def
        upper_letters_def lower_letters_def)
  have t: "trim ''  Math '' \<noteq> []" "trim ''   '' = []"
    by (simp_all add: trim_def isWhitespace_def)
  have p: "addTagToList ''physics'' [] = [''physics'']"
    by (simp add: addTagToList_def Let_def truthy_str_def trim_def isWhitespace_def
        toLowerCase_def toLowerChar_def upper_letters_def lower_letters_def)
  have once: "addTagToList ''  Math '' [''physics''] = [''physics'', ''math'']"
    by (simp add: addTagToList_def Let_def truthy_str_def n)
  note C = C4_addTagToList_idempotent[of "''  Math ''" "''MATH''" "addTagToList ''physics'' []"]
  have eq: "toLowerCase (trim ''  Math '') = toLowerCase (trim ''MATH'')"
    by (simp only: n)
  from C eq have twice:
    "addTagToList ''MATH'' (addTagToList ''  Math '' (addTagToList ''physics'' []))
       = addTagToList ''  Math '' (addTagToList ''physics'' [])"
    by blast
  from C r eq t(1) have cnt:
    "count_list (addTagToList ''MATH'' (addTagToList ''  Math '' (addTagToList ''physics'' [])))
       (toLowerCase (trim ''  Math '')) = 1"
    by blast
  have blank: "addTagToList ''   '' [''physics''] = [''physics'']"
    using C4_addTagToList_idempotent[of "''   ''" "''   ''" "[''physics'']"] t by blast
  from r eq t blank show ?thesis
    using cnt twice by (simp add: n once p)
qed

section \<open>Properties of createFile\<close>

declare createFile_loop.simps [simp del]

lemma createFile_loop_return:
  "attempt \<le> maxAttempts \<Longrightarrow> attempt_body (request attempt) = Return r \<Longrightarrow>
   createFile_loop request attempt lastError trace = (r, trace @ [InsertAttempt attempt])"
  by (subst createFile_loop.simps) simp

lemma createFile_loop_retry:
  "attempt \<le> maxAttempts \<Longrightarrow> attempt_body (request attempt) = Retry e \<Longrightarrow>
   createFile_loop request attempt lastError trace =
     createFile_loop request (attempt + 1) (Some e)
       (if attempt < maxAttempts then trace @ [InsertAttempt attempt, Sleep (250 * attempt)]
        else trace @ [InsertAttempt attempt])"
  by (subst createFile_loop.simps) simp

lemma createFile_loop_exhausted:
  "maxAttempts < attempt \<Longrightarrow>
   createFile_loop request attempt lastError trace = (Failure (Some (final_message lastError)), trace)"
  by (subst createFile_loop.simps) simp

lemma attempt_body_cases:
  obtains r where "attempt_body resp = Return r" | e where "attempt_body resp = Retry e"
  by (cases "attempt_body resp") auto

lemma loop3:
  "createFile_loop request 3 le tr =
     (case attempt_body (request 3) of
        Return r \<Rightarrow> (r, tr @ [InsertAttempt 3])
      | Retry e \<Rightarrow> (Failure (Some (final_message (Some e))), tr @ [InsertAttempt 3]))"
proof (cases "attempt_body (request 3)")
  case (Return r)
  then show ?thesis by (simp add: createFile_loop_return maxAttempts_def)
next
  case (Retry e)
  then show ?thesis
    by (simp add: createFile_loop_retry createFile_loop_exhausted maxAttempts_def)
qed

lemma loop2:
  "createFile_loop request 2 le tr =
     (case attempt_body (request 2) of
        Return r \<Rightarrow> (r, tr @ [InsertAttempt 2])
      | Retry e \<Rightarrow> createFile_loop request 3 (Some e) (tr @ [InsertAttempt 2, Sleep 500]))"
proof (cases "attempt_body (request 2)")
  case (Return r)
  then show ?thesis by (simp add: createFile_loop_return maxAttempts_def)
next
  case (Retry e)
  have "createFile_loop request 2 le tr =
        createFile_loop request (2 + 1) (Some e) (tr @ [InsertAttempt 2, Sleep (250 * 2)])"
    using createFile_loop_retry[of 2 request e le tr] Retry by (simp add: maxAttempts_def)
  then show ?thesis using Retry by simp
qed

lemma loop1:
  "createFile_loop request (Suc 0) le tr =
     (case attempt_body (request (Suc 0)) of
        Return r \<Rightarrow> (r, tr @ [InsertAttempt 1])
      | Retry e \<Rightarrow> createFile_loop request 2 (Some e) (tr @ [InsertAttempt 1, Sleep 250]))"
proof (cases "attempt_body (request (Suc 0))")
  case (Return r)
  then show ?thesis by (simp add: createFile_loop_return maxAttempts_def)
next
  case (Retry e)
  have "createFile_loop request (Suc 0) le tr =
        createFile_loop request (Suc 0 + 1) (Some e)
          (tr @ [InsertAttempt (Suc 0), Sleep (250 * Suc 0)])"
    using createFile_loop_retry[of "Suc 0" request e le tr] Retry by (simp add: maxAttempts_def)
  then show ?thesis using Retry by (simp add: numeral_2_eq_2)
qed

lemma createFile_remote:
  "createFile B (Some request) fd uuid n1 n2 store =
     (fst (createFile_loop request 1 None []), store, snd (createFile_loop request 1 None []))"
  by (simp add: createFile_def split: prod.splits)

lemma createFile_traces:
  "snd (createFile_loop request 1 None []) \<in>
     {[InsertAttempt 1],
      [InsertAttempt 1, Sleep 250, InsertAttempt 2],
      [InsertAttempt 1, Sleep 250, InsertAttempt 2, Sleep 500, InsertAttempt 3]}"
  by (simp add: loop1 loop2 loop3 split: attempt_outcome.splits)

lemma toLowerCase_append: "toLowerCase (a @ b) = toLowerCase a @ toLowerCase b"
  by (simp add: toLowerCase_def)

lemma str_includes_toLowerCase:
  "str_includes s q \<Longrightarrow> str_includes (toLowerCase s) (toLowerCase q)"
proof -
  assume "str_includes s q"
  then obtain ps ss where "s = ps @ q @ ss"
    unfolding str_includes_iff by blast
  then have "toLowerCase s = toLowerCase ps @ toLowerCase q @ toLowerCase ss"
    by (simp add: toLowerCase_append)
  then show ?thesis
    unfolding str_includes_iff by blast
qed

lemma no_retry_raw:
  assumes "message err = Some m"
    and "str_includes m ''permission'' \<or> str_includes m ''forbidden'' \<or>
         str_includes m ''not authorized'' \<or> str_includes m ''duplicate''"
  shows "no_retry err"
proof -
  have lits: "toLowerCase ''permission'' = ''permission''" "toLowerCase ''forbidden'' = ''forbidden''"
    "toLowerCase ''not authorized'' = ''not authorized''" "toLowerCase ''duplicate'' = ''duplicate''"
    by (simp_all add: toLowerCase_def toLowerChar_def upper_letters_def lower_letters_def)
  from assms(2) show ?thesis
    using str_includes_toLowerCase[of m "''permission''"] str_includes_toLowerCase[of m "''forbidden''"]
      str_includes_toLowerCase[of m "''not authorized''"] str_includes_toLowerCase[of m "''duplicate''"]
    unfolding lits by (auto simp: no_retry_def Let_def assms(1) or_empty_str_def)
qed

lemma attempt_body_no_retry:
  "no_retry err \<Longrightarrow> attempt_body (InsertReturned d (Some err)) = Return (Failure (Some (error_text err)))"
  by (simp add: attempt_body_def)

lemma attempt_body_created:
  "attempt_body (InsertReturned (Some (row # rest)) None) = Return (Success (Some row))"
  by (simp add: attempt_body_def)

lemma attempt_body_Retry_iff:
  "attempt_body resp = Retry e \<longleftrightarrow>
     resp = InsertThrew e \<or>
     (\<exists>d. resp = InsertReturned d (Some e) \<and> \<not> no_retry e) \<or>
     ((resp = InsertReturned None None \<or> resp = InsertReturned (Some []) None) \<and>
      e = \<lparr>message = Some ''Empty response from insert'',
           json_text = ''{\"message\":\"Empty response from insert\"}''\<rparr>)"
  by (auto simp: attempt_body_def split: insert_response.splits option.splits list.splits)

text \<open>
  Claim C5, as stated: an attempt whose error message contains \<open>permission\<close> ends the
  call at once, with no further attempt.  This fails when the insert request throws such
  an error instead of returning it: the \<open>catch\<close> block only records the error, so the
  call goes through all three attempts and both waits before it reports the failure.
\<close>

theorem C5_createFile_retry_counterexample:
  "sample_throwing_request 1 =
     InsertThrew \<lparr>message = Some ''permission denied for table files'', json_text = ''{}''\<rparr>
   \<and> str_includes ''permission denied for table files'' ''permission''
   \<and> createFile sample_builtins (Some sample_throwing_request) [] ''u'' 0 0 sample_store =
        (Failure (Some ''permission denied for table files''), sample_store,
         [InsertAttempt 1, Sleep 250, InsertAttempt 2, Sleep 500, InsertAttempt 3])"
proof -
  let ?e = "\<lparr>message = Some ''permission denied for table files'', json_text = ''{}''\<rparr>"
  have b: "attempt_body (sample_throwing_request n) = Retry ?e" for n
    by (simp add: sample_throwing_request_def attempt_body_def)
  have fin: "final_message (Some ?e) = ''permission denied for table files''"
    by (simp add: final_message_def error_text_def truthy_opt_str_def truthy_str_def
        or_empty_str_def)
  have run: "createFile sample_builtins (Some sample_throwing_request) [] ''u'' 0 0 sample_store =
        (Failure (Some ''permission denied for table files''), sample_store,
         [InsertAttempt 1, Sleep 250, InsertAttempt 2, Sleep 500, InsertAttempt 3])"
    by (simp add: createFile_remote loop1 loop2 loop3 b fin)
  have inc: "str_includes ''permission denied for table files'' ''permission''"
    by simp
  from run inc show ?thesis by (simp add: sample_throwing_request_def)
qed

text \<open>
  Claim C5, amended: against the remote store, \<open>createFile\<close> sends at most three insert
  requests, waiting 250 ms times the attempt number between two of them; an attempt
  whose request returns an error whose message, lower-cased, contains \<open>permission\<close>,
  \<open>forbidden\<close>, \<open>not authorized\<close> or \<open>duplicate\<close> ends the call at once with a
  failure carrying that error, while an attempt whose request throws is retried whatever
  the message of the thrown error; when attempts 1 and 2 fail otherwise (the request
  throws, returns another error, or returns no row) and attempt 3 succeeds, the result is
  success with the created row; when all three attempts fail, the result is a failure
  carrying the last error.
\<close>

theorem C5_createFile_retry:
  "snd (snd (createFile B (Some request) fd uuid n1 n2 store)) \<in>
     {[InsertAttempt 1],
      [InsertAttempt 1, Sleep 250, InsertAttempt 2],
      [InsertAttempt 1, Sleep 250, InsertAttempt 2, Sleep 500, InsertAttempt 3]}
   \<and> (message err = Some m \<and>
        (str_includes m ''permission'' \<or> str_includes m ''forbidden'' \<or>
         str_includes m ''not authorized'' \<or> str_includes m ''duplicate'') \<longrightarrow> no_retry err)
   \<and> (request 1 = InsertReturned d (Some err) \<and> no_retry err \<longrightarrow>
        createFile B (Some request) fd uuid n1 n2 store =
          (Failure (Some (error_text err)), store, [InsertAttempt 1]))
   \<and> (attempt_body (request 1) = Retry e1 \<and>
        request 2 = InsertReturned d (Some err) \<and> no_retry err \<longrightarrow>
        createFile B (Some request) fd uuid n1 n2 store =
          (Failure (Some (error_text err)), store,
           [InsertAttempt 1, Sleep 250, InsertAttempt 2]))
   \<and> (attempt_body (request 1) = Retry e1 \<and> attempt_body (request 2) = Retry e2 \<and>
        request 3 = InsertReturned d (Some err) \<and> no_retry err \<longrightarrow>
        createFile B (Some request) fd uuid n1 n2 store =
          (Failure (Some (error_text err)), store,
           [InsertAttempt 1, Sleep 250, InsertAttempt 2, Sleep 500, InsertAttempt 3]))
   \<and> (attempt_body (request 1) = Retry e1 \<and> attempt_body (request 2) = Retry e2 \<and>
        request 3 = InsertReturned (Some (row # rest)) None \<longrightarrow>
        createFile B (Some request) fd uuid n1 n2 store =
          (Success (Some row), store,
           [InsertAttempt 1, Sleep 250, InsertAttempt 2, Sleep 500, InsertAttempt 3]))
   \<and> (attempt_body (request 1) = Retry e1 \<and> attempt_body (request 2) = Retry e2 \<and>
        attempt_body (request 3) = Retry e3 \<longrightarrow>
        createFile B (Some request) fd uuid n1 n2 store =
          (Failure (Some (final_message (Some e3))), store,
           [InsertAttempt 1, Sleep 250, InsertAttempt 2, Sleep 500, InsertAttempt 3]))
   \<and> attempt_body (InsertThrew thrown) = Retry thrown
   \<and> (request 1 = InsertThrew t1 \<and> request 2 = InsertThrew t2 \<and> request 3 = InsertThrew t3 \<longrightarrow>
        createFile B (Some request) fd uuid n1 n2 store =
          (Failure (Some (final_message (Some t3))), store,
           [InsertAttempt 1, Sleep 250, InsertAttempt 2, Sleep 500, InsertAttempt 3]))"
proof (intro conjI impI)
  show "snd (snd (createFile B (Some request) fd uuid n1 n2 store)) \<in>
     {[InsertAttempt 1],
      [InsertAttempt 1, Sleep 250, InsertAttempt 2],
      [InsertAttempt 1, Sleep 250, InsertAttempt 2, Sleep 500, InsertAttempt 3]}"
    using createFile_traces[of request] by (simp add: createFile_remote)
next
  assume "message err = Some m \<and>
        (str_includes m ''permission'' \<or> str_includes m ''forbidden'' \<or>
         str_includes m ''not authorized'' \<or> str_includes m ''duplicate'')"
  then show "no_retry err" using no_retry_raw by blast
next
  assume "request 1 = InsertReturned d (Some err) \<and> no_retry err"
  then have "attempt_body (request (Suc 0)) = Return (Failure (Some (error_text err)))"
    by (simp add: attempt_body_no_retry)
  then show "createFile B (Some request) fd uuid n1 n2 store =
          (Failure (Some (error_text err)), store, [InsertAttempt 1])"
    by (simp add: createFile_remote loop1)
next
  assume "attempt_body (request 1) = Retry e1 \<and>
        request 2 = InsertReturned d (Some err) \<and> no_retry err"
  then have "attempt_body (request (Suc 0)) = Retry e1"
    and "attempt_body (request 2) = Return (Failure (Some (error_text err)))"
    by (simp_all add: attempt_body_no_retry)
  then show "createFile B (Some request) fd uuid n1 n2 store =
          (Failure (Some (error_text err)), store,
           [InsertAttempt 1, Sleep 250, InsertAttempt 2])"
    by (simp add: createFile_remote loop1 loop2)
next
  assume "attempt_body (request 1) = Retry e1 \<and> attempt_body (request 2) = Retry e2 \<and>
        request 3 = InsertReturned d (Some err) \<and> no_retry err"
  then have "attempt_body (request (Suc 0)) = Retry e1" and "attempt_body (request 2) = Retry e2"
    and "attempt_body (request 3) = Return (Failure (Some (error_text err)))"
    by (simp_all add: attempt_body_no_retry)
  then show "createFile B (Some request) fd uuid n1 n2 store =
          (Failure (Some (error_text err)), store,
           [InsertAttempt 1, Sleep 250, InsertAttempt 2, Sleep 500, InsertAttempt 3])"
    by (simp add: createFile_remote loop1 loop2 loop3)
next
  assume "attempt_body (request 1) = Retry e1 \<and> attempt_body (request 2) = Retry e2 \<and>
        request 3 = InsertReturned (Some (row # rest)) None"
  then have "attempt_body (request (Suc 0)) = Retry e1" and "attempt_body (request 2) = Retry e2"
    and "attempt_body (request 3) = Return (Success (Some row))"
    by (simp_all add: attempt_body_created)
  then show "createFile B (Some request) fd uuid n1 n2 store =
          (Success (Some row), store,
           [InsertAttempt 1, Sleep 250, InsertAttempt 2, Sleep 500, InsertAttempt 3])"
    by (simp add: createFile_remote loop1 loop2 loop3)
next
  assume "attempt_body (request 1) = Retry e1 \<and> attempt_body (request 2) = Retry e2 \<and>
        attempt_body (request 3) = Retry e3"
  then have "attempt_body (request (Suc 0)) = Retry e1" and "attempt_body (request 2) = Retry e2"
    and "attempt_body (request 3) = Retry e3"
    by simp_all
  then show "createFile B (Some request) fd uuid n1 n2 store =
          (Failure (Some (final_message (Some e3))), store,
           [InsertAttempt 1, Sleep 250, InsertAttempt 2, Sleep 500, InsertAttempt 3])"
    by (simp add: createFile_remote loop1 loop2 loop3)
next
  show "attempt_body (InsertThrew thrown) = Retry thrown"
    by (simp add: attempt_body_def)
next
  assume "request 1 = InsertThrew t1 \<and> request 2 = InsertThrew t2 \<and> request 3 = InsertThrew t3"
  then have "attempt_body (request (Suc 0)) = Retry t1" and "attempt_body (request 2) = Retry t2"
    and "attempt_body (request 3) = Retry t3"
    by (simp_all add: attempt_body_def)
  then show "createFile B (Some request) fd uuid n1 n2 store =
          (Failure (Some (final_message (Some t3))), store,
           [InsertAttempt 1, Sleep 250, InsertAttempt 2, Sleep 500, InsertAttempt 3])"
    by (simp add: createFile_remote loop1 loop2 loop3)
qed

theorem C5_createFile_retry_witness:
  "(\<exists>e1 e2. attempt_body (sample_flaky_request 1) = Retry e1 \<and>
            attempt_body (sample_flaky_request 2) = Retry e2)
   \<and> sample_flaky_request 3 =
        InsertReturned (Some [[(''id'', Str ''42''), (''title'', Str ''Notes'')]]) None
   \<and> createFile sample_builtins (Some sample_flaky_request) [] ''u'' 0 0 Map.empty =
        (Success (Some [(''id'', Str ''42''), (''title'', Str ''Notes'')]), Map.empty,
         [InsertAttempt 1, Sleep 250, InsertAttempt 2, Sleep 500, InsertAttempt 3])
   \<and> no_retry \<lparr>message = Some ''Permission denied for table files'', json_text = ''{}''\<rparr>
   \<and> createFile sample_builtins (Some sample_denied_request) [] ''u'' 0 0 Map.empty =
        (Failure (Some ''Permission denied for table files''), Map.empty, [InsertAttempt 1])
   \<and> createFile sample_builtins (Some sample_failing_request) [] ''u'' 0 0 Map.empty =
        (Failure (Some ''Empty response from insert''), Map.empty,
         [InsertAttempt 1, Sleep 250, InsertAttempt 2, Sleep 500, InsertAttempt 3])"
proof -
  let ?net = "\<lparr>message = Some ''Failed to fetch'', json_text = ''{}''\<rparr>"
  let ?den = "\<lparr>message = Some ''Permission denied for table files'', json_text = ''{}''\<rparr>"
  let ?tmo = "\<lparr>message = Some ''timeout'', json_text = ''{}''\<rparr>"
  let ?emp = "\<lparr>message = Some ''Empty response from insert'',
               json_text = ''{\"message\":\"Empty response from insert\"}''\<rparr>"
  have f12: "attempt_body (sample_flaky_request 1) = Retry ?net"
    "attempt_body (sample_flaky_request 2) = Retry ?net"
    by (simp_all add: sample_flaky_request_def attempt_body_def)
  have f3: "sample_flaky_request 3 =
        InsertReturned (Some [[(''id'', Str ''42''), (''title'', Str ''Notes'')]]) None"
    by (simp add: sample_flaky_request_def)
  have den: "no_retry ?den"
    by (simp add: no_retry_def or_empty_str_def toLowerCase_def toLowerChar_def
        upper_letters_def lower_letters_def)
  have etext: "error_text ?den = ''Permission denied for table files''"
    by (simp add: error_text_def truthy_opt_str_def truthy_str_def or_empty_str_def)
  have d1: "sample_denied_request 1 = InsertReturned None (Some ?den)"
    by (simp add: sample_denied_request_def)
  have tmo: "\<not> no_retry ?tmo"
    by (simp add: no_retry_def or_empty_str_def toLowerCase_def toLowerChar_def
        upper_letters_def lower_letters_def)
  have g12: "attempt_body (sample_failing_request 1) = Retry ?tmo"
    "attempt_body (sample_failing_request 2) = Retry ?tmo"
    using tmo by (simp_all add: sample_failing_request_def attempt_body_def)
  have g3: "attempt_body (sample_failing_request 3) = Retry ?emp"
    by (simp add: sample_failing_request_def attempt_body_def)
  have fin: "final_message (Some ?emp) = ''Empty response from insert''"
    by (simp add: final_message_def error_text_def truthy_opt_str_def truthy_str_def
        or_empty_str_def)
  have r1: "createFile sample_builtins (Some sample_flaky_request) [] ''u'' 0 0 Map.empty =
        (Success (Some [(''id'', Str ''42''), (''title'', Str ''Notes'')]), Map.empty,
         [InsertAttempt 1, Sleep 250, InsertAttempt 2, Sleep 500, InsertAttempt 3])"
    using C5_createFile_retry[of sample_builtins sample_flaky_request "[]" "''u''" 0 0 Map.empty
        _ _ _ ?net ?net "[(''id'', Str ''42''), (''title'', Str ''Notes'')]" "[]"] f12 f3
    by blast
  have r2: "createFile sample_builtins (Some sample_denied_request) [] ''u'' 0 0 Map.empty =
        (Failure (Some ''Permission denied for table files''), Map.empty, [InsertAttempt 1])"
    using C5_createFile_retry[of sample_builtins sample_denied_request "[]" "''u''" 0 0 Map.empty
        ?den _ None] d1 den etext
    by metis
  have r3: "createFile sample_builtins (Some sample_failing_request) [] ''u'' 0 0 Map.empty =
        (Failure (Some ''Empty response from insert''), Map.empty,
         [InsertAttempt 1, Sleep 250, InsertAttempt 2, Sleep 500, InsertAttempt 3])"
    using C5_createFile_retry[of sample_builtins sample_failing_request "[]" "''u''" 0 0 Map.empty
        _ _ _ ?tmo ?tmo _ _ ?emp] g12 g3 fin
    by metis
  from f12 f3 den r1 r2 r3 show ?thesis by blast
qed

section \<open>Properties of the local fallback store\<close>

lemma get_prop_set_prop:
  "get_prop (set_prop k v ob) k' = (if k' = k then v else get_prop ob k')"
  by (induction ob) (auto simp: get_prop_def)

lemma set_prop_present:
  "k \<in> fst ` set ob \<Longrightarrow> distinct (map fst ob) \<Longrightarrow>
   set_prop k v ob = map (\<lambda>p. if fst p = k then (k, v) else p) ob"
proof (induction ob)
  case Nil
  then show ?case by simp
next
  case (Cons p ob)
  obtain k0 v0 where p: "p = (k0, v0)" by (cases p)
  show ?case
  proof (cases "k0 = k")
    case True
    with Cons.prems p have "\<forall>q \<in> set ob. fst q \<noteq> k" by auto
    then have "map (\<lambda>q. if fst q = k then (k, v) else q) ob = ob"
      by (simp add: map_idI)
    with True p show ?thesis by simp
  next
    case False
    with Cons p show ?thesis by auto
  qed
qed

lemma map_filter_cong_set:
  "(\<And>x. x \<in> set xs \<Longrightarrow> F x = G x) \<Longrightarrow> List.map_filter F xs = List.map_filter G xs"
  by (induction xs) (auto split: option.splits)

lemma filter_as_map_filter:
  "filter P xs = List.map_filter (\<lambda>x. if P x then Some x else None) xs"
  by (induction xs) simp_all

lemma map_map_filter:
  "map F (List.map_filter G xs) = List.map_filter (\<lambda>x. map_option F (G x)) xs"
  by (induction xs) (simp_all split: option.splits)

lemma parse_stringify:
  "parse_obj (stringify_obj B f) = List.map_filter (reparse B) f"
  unfolding parse_obj_def stringify_obj_def reparse_def map_map_filter
  by (rule map_filter_cong_set) (auto split: option.splits simp: map_option_case)

lemma map_of_reparsed:
  "distinct (map fst f) \<Longrightarrow>
   map_of (List.map_filter (reparse B) f) k =
     (case map_of f k of None \<Rightarrow> None | Some v \<Rightarrow> map_option of_json (to_json B v))"
proof (induction f)
  case Nil
  then show ?case by simp
next
  case (Cons p f)
  obtain k0 v0 where p: "p = (k0, v0)" by (cases p)
  from Cons.prems p have notin: "map_of f k0 = None"
    by (simp add: map_of_eq_None_iff)
  from Cons p notin show ?case
    by (cases "to_json B v0") (auto simp: reparse_def)
qed

lemma to_json_None_iff: "to_json B v = None \<longleftrightarrow> v = Undefined"
  by (induction B v rule: to_json.induct) auto

lemma keys_reparsed:
  "map fst (List.map_filter (reparse B) f) = map fst (filter (\<lambda>(k, v). v \<noteq> Undefined) f)"
proof (induction f)
  case Nil
  then show ?case by simp
next
  case (Cons p f)
  obtain k0 v0 where p: "p = (k0, v0)" by (cases p)
  from Cons p show ?case
    by (cases "to_json B v0") (auto simp: reparse_def to_json_None_iff)
qed


lemma of_to_json:
  "\<not> is_date v \<Longrightarrow> to_json B v = Some j \<Longrightarrow> of_json j = v"
  by (induction B v rule: to_json.induct) (auto simp: is_date_def)

lemma get_prop_member:
  "distinct (map fst f) \<Longrightarrow> (k, v) \<in> set f \<Longrightarrow> get_prop f k = v"
  by (simp add: get_prop_def)

lemma get_prop_key:
  "get_prop ob k = v \<Longrightarrow> v \<noteq> Undefined \<Longrightarrow> k \<in> fst ` set ob"
proof -
  assume "get_prop ob k = v" and "v \<noteq> Undefined"
  then have "map_of ob k = Some v"
    by (auto simp: get_prop_def split: option.splits)
  then have "(k, v) \<in> set ob" by (rule map_of_SomeD)
  then show ?thesis by force
qed

lemma keys_replace:
  "map fst (map (\<lambda>p. if fst p = k then (k, v) else p) ob) = map fst ob"
  by (induction ob) auto

lemma reload_record:
  assumes rec: "file_record f" and sur: "dates_survive B f"
  shows "revive_dates B (stringify_obj B f) = filter (\<lambda>(k, v). v \<noteq> Undefined) f"
proof -
  let ?c = "''createdAt''" and ?u = "''updatedAt''"
  let ?g = "List.map_filter (reparse B) f"
  from rec have dist: "distinct (map fst f)" by (simp add: file_record_def)
  from rec obtain t1 where c: "get_prop f ?c = DateV (Some t1)"
    by (auto simp: file_record_def is_valid_date_def split: fval.splits option.splits)
  from rec obtain t2 where u: "get_prop f ?u = DateV (Some t2)"
    by (auto simp: file_record_def is_valid_date_def split: fval.splits option.splits)
  from sur c have p1: "parseDate B (toISOString B t1) = Some t1"
    by (simp add: dates_survive_def date_survives_def)
  from sur u have p2: "parseDate B (toISOString B t2) = Some t2"
    by (simp add: dates_survive_def date_survives_def)
  from c have mc: "map_of f ?c = Some (DateV (Some t1))"
    by (auto simp: get_prop_def split: option.splits)
  from u have mu: "map_of f ?u = Some (DateV (Some t2))"
    by (auto simp: get_prop_def split: option.splits)
  have gc: "get_prop ?g ?c = Str (toISOString B t1)"
    by (simp add: get_prop_def map_of_reparsed[OF dist] mc)
  have gu: "get_prop ?g ?u = Str (toISOString B t2)"
    by (simp add: get_prop_def map_of_reparsed[OF dist] mu)
  have dg: "distinct (map fst ?g)"
    unfolding keys_reparsed using dist by (simp add: distinct_map_filter)
  have cg: "?c \<in> fst ` set ?g"
    by (rule get_prop_key[OF gc]) simp
  have ug: "?u \<in> fst ` set ?g"
    by (rule get_prop_key[OF gu]) simp
  let ?fc = "\<lambda>p. if fst p = ?c then (?c, DateV (Some t1)) else p"
  let ?fu = "\<lambda>p. if fst p = ?u then (?u, DateV (Some t2)) else p"
  have s1: "set_prop ?c (DateV (Some t1)) ?g = map ?fc ?g"
    by (rule set_prop_present[OF cg dg])
  have k1: "map fst (map ?fc ?g) = map fst ?g"
    by (rule keys_replace)
  have s2: "set_prop ?u (DateV (Some t2)) (map ?fc ?g) = map ?fu (map ?fc ?g)"
  proof (rule set_prop_present)
    have "fst ` set (map ?fc ?g) = set (map fst (map ?fc ?g))" by (simp only: set_map)
    also have "\<dots> = fst ` set ?g" by (simp only: k1 set_map)
    finally show "?u \<in> fst ` set (map ?fc ?g)" using ug by simp
    show "distinct (map fst (map ?fc ?g))" using dg by (simp only: k1)
  qed
  have "revive_dates B (stringify_obj B f) = map ?fu (map ?fc ?g)"
    by (simp add: revive_dates_def Let_def parse_stringify gc gu p1 p2 s1 s2)
  also have "\<dots> = List.map_filter (\<lambda>x. map_option (?fu \<circ> ?fc) (reparse B x)) f"
    by (simp add: map_map_filter option.map_comp)
  also have "\<dots> = List.map_filter (\<lambda>x. if (\<lambda>(k, v). v \<noteq> Undefined) x then Some x else None) f"
  proof (rule map_filter_cong_set)
    fix x assume x: "x \<in> set f"
    obtain k v where kv: "x = (k, v)" by (cases x)
    from x kv dist have gk: "get_prop f k = v" by (simp add: get_prop_member)
    from rec x kv have nd: "k = ?c \<or> k = ?u \<or> \<not> is_date v"
      by (auto simp: file_record_def list_all_iff)
    show "map_option (?fu \<circ> ?fc) (reparse B x) =
          (if (\<lambda>(k, v). v \<noteq> Undefined) x then Some x else None)"
    proof (cases "k = ?c")
      case True
      with gk c have "v = DateV (Some t1)" by simp
      with True kv show ?thesis by (simp add: reparse_def)
    next
      case nc: False
      show ?thesis
      proof (cases "k = ?u")
        case True
        with gk u have "v = DateV (Some t2)" by simp
        with True kv show ?thesis by (simp add: reparse_def)
      next
        case False
        with nc nd have "\<not> is_date v" by simp
        with nc False kv show ?thesis
          by (cases "to_json B v") (auto simp: reparse_def to_json_None_iff of_to_json)
      qed
    qed
  qed
  also have "\<dots> = filter (\<lambda>(k, v). v \<noteq> Undefined) f"
    by (simp only: filter_as_map_filter)
  finally show ?thesis .
qed

lemma get_prop_defined:
  "distinct (map fst f) \<Longrightarrow> get_prop (filter (\<lambda>(k, v). v \<noteq> Undefined) f) k = get_prop f k"
proof (induction f)
  case Nil
  then show ?case by simp
next
  case (Cons p f)
  obtain k0 v0 where p: "p = (k0, v0)" by (cases p)
  from Cons.prems p have "map_of f k0 = None" by (simp add: map_of_eq_None_iff)
  then have "get_prop f k0 = Undefined" by (simp add: get_prop_def)
  with Cons p show ?case by (auto simp: get_prop_def)
qed

lemma stringify_defined:
  "stringify_obj B (filter (\<lambda>(k, v). v \<noteq> Undefined) f) = stringify_obj B f"
  by (induction f) (auto simp: stringify_obj_def to_json_None_iff split: option.splits)

lemma filter_defined_id:
  "Undefined \<notin> snd ` set f \<Longrightarrow> filter (\<lambda>(k, v). v \<noteq> Undefined) f = f"
  by (induction f) auto

lemma getFiles_saveFiles:
  "getFilesFromLocalStorage B (saveFilesToLocalStorage B fs store) =
     map (\<lambda>f. revive_dates B (stringify_obj B f)) fs"
  by (simp add: getFilesFromLocalStorage_def saveFilesToLocalStorage_def comp_def)

lemma reload_records:
  assumes "\<forall>f \<in> set fs. file_record f \<and> dates_survive B f"
  shows "map (\<lambda>f. revive_dates B (stringify_obj B f)) fs =
         map (filter (\<lambda>(k, v). v \<noteq> Undefined)) fs"
  using assms by (intro map_cong refl) (simp add: reload_record)

lemma findIndex_None_iff: "findIndex p xs = None \<longleftrightarrow> (\<forall>x \<in> set xs. \<not> p x)"
  by (induction xs) (auto split: option.splits)

lemma list_of_two: "length xs = 2 \<Longrightarrow> map F xs = [F (xs ! 0), F (xs ! 1)]"
  by (auto simp: numeral_2_eq_2 length_Suc_conv)

lemma deleteFolderFromLocalStorage_files:
  "fst (deleteFolderFromLocalStorage B fid store) = Success None"
  "snd (deleteFolderFromLocalStorage B fid store) ''archiveFiles'' = store ''archiveFiles''"
  "getFilesFromLocalStorage B (snd (deleteFolderFromLocalStorage B fid store)) =
     getFilesFromLocalStorage B store"
  by (simp_all add: deleteFolderFromLocalStorage_def saveFoldersToLocalStorage_def
      getFilesFromLocalStorage_def Let_def)

lemma remote_delete_folder_detaches:
  "length (files_table (remote_delete_folder fid db)) = length (files_table db)"
  "i < length (files_table db) \<Longrightarrow> get_prop (files_table db ! i) ''folder_id'' = Str fid \<Longrightarrow>
     get_prop (files_table (remote_delete_folder fid db) ! i) ''folder_id'' = Null"
  by (simp_all add: remote_delete_folder_def get_prop_set_prop)

text \<open>
  Claim C6: for every list of file records, saving the list with
  \<open>saveFilesToLocalStorage\<close> and reloading it with \<open>getFilesFromLocalStorage\<close> gives
  as many records, each with every property equal to the original's, the \<open>createdAt\<close>
  and \<open>updatedAt\<close> time stamps being dates with the original time values; when no
  property is \<open>undefined\<close> the reloaded list is the original list.  (A property that is
  \<open>undefined\<close> is not written, and reads as \<open>undefined\<close> afterwards.)  The built-in
  date conversions are assumed to round-trip the time stamps of the records.
\<close>

theorem C6_local_storage_roundtrip:
  assumes "\<forall>f \<in> set fs. file_record f \<and> dates_survive B f"
  shows "length (getFilesFromLocalStorage B (saveFilesToLocalStorage B fs store)) = length fs
    \<and> (\<forall>i < length fs. \<forall>k.
          get_prop (getFilesFromLocalStorage B (saveFilesToLocalStorage B fs store) ! i) k =
          get_prop (fs ! i) k)
    \<and> ((\<forall>f \<in> set fs. Undefined \<notin> snd ` set f) \<longrightarrow>
          getFilesFromLocalStorage B (saveFilesToLocalStorage B fs store) = fs)"
proof -
  have loaded: "getFilesFromLocalStorage B (saveFilesToLocalStorage B fs store) =
        map (filter (\<lambda>(k, v). v \<noteq> Undefined)) fs"
    by (simp only: getFiles_saveFiles reload_records[OF assms])
  have fields: "get_prop (map (filter (\<lambda>(k, v). v \<noteq> Undefined)) fs ! i) k = get_prop (fs ! i) k"
    if "i < length fs" for i k
  proof -
    from that assms have "distinct (map fst (fs ! i))"
      by (simp add: file_record_def)
    with that show ?thesis by (simp add: get_prop_defined)
  qed
  have exact: "map (filter (\<lambda>(k, v). v \<noteq> Undefined)) fs = fs"
    if "\<forall>f \<in> set fs. Undefined \<notin> snd ` set f"
    using that by (intro map_idI) (simp add: filter_defined_id)
  from fields exact show ?thesis unfolding loaded by simp
qed

theorem C6_local_storage_roundtrip_witness:
  "file_record (sample_record ''a'' (Str ''f1''))
   \<and> dates_survive sample_builtins (sample_record ''a'' (Str ''f1''))
   \<and> file_record (sample_record ''b'' Null)
   \<and> dates_survive sample_builtins (sample_record ''b'' Null)
   \<and> map (\<lambda>f. map (get_prop f) [''id'', ''folderId'', ''fileUrl'', ''createdAt'', ''updatedAt''])
       (getFilesFromLocalStorage sample_builtins
          (saveFilesToLocalStorage sample_builtins
             [sample_record ''a'' (Str ''f1''), sample_record ''b'' Null] Map.empty))
     = [[Str ''a'', Str ''f1'', Undefined, DateV (Some 0), DateV (Some 86400000)],
        [Str ''b'', Null, Undefined, DateV (Some 0), DateV (Some 86400000)]]"
proof -
  let ?fs = "[sample_record ''a'' (Str ''f1''), sample_record ''b'' Null]"
  let ?ks = "[''id'', ''folderId'', ''fileUrl'', ''createdAt'', ''updatedAt'']"
  have rec: "file_record (sample_record i fld)" if "\<not> is_date fld" for i fld
    using that
    by (simp add: sample_record_def file_record_def get_prop_def is_valid_date_def is_date_def
        valid_time_def)
  have sur: "dates_survive sample_builtins (sample_record i fld)" for i fld
    by (simp add: sample_record_def dates_survive_def date_survives_def get_prop_def
        sample_builtins_def)
  have h: "\<forall>f \<in> set ?fs. file_record f \<and> dates_survive sample_builtins f"
    by (simp add: rec sur is_date_def)
  note C = C6_local_storage_roundtrip[OF h, of Map.empty]
  let ?l = "getFilesFromLocalStorage sample_builtins
              (saveFilesToLocalStorage sample_builtins ?fs Map.empty)"
  from C have len: "length ?l = 2" by simp
  from C have f0: "get_prop (?l ! 0) k = get_prop (sample_record ''a'' (Str ''f1'')) k" for k
    by simp
  from C have f1: "get_prop (?l ! 1) k = get_prop (sample_record ''b'' Null) k" for k
    by simp
  have vals: "map (get_prop (sample_record i fld)) ?ks =
        [Str i, fld, Undefined, DateV (Some 0), DateV (Some 86400000)]" for i fld
    by (simp add: sample_record_def get_prop_def)
  have "map (\<lambda>f. map (get_prop f) ?ks) ?l =
        [map (get_prop (?l ! 0)) ?ks, map (get_prop (?l ! 1)) ?ks]"
    by (rule list_of_two[OF len])
  also have "\<dots> = [map (get_prop (sample_record ''a'' (Str ''f1''))) ?ks,
                     map (get_prop (sample_record ''b'' Null)) ?ks]"
    by (simp only: f0 f1 list.map)
  finally have "map (\<lambda>f. map (get_prop f) ?ks) ?l =
        [[Str ''a'', Str ''f1'', Undefined, DateV (Some 0), DateV (Some 86400000)],
         [Str ''b'', Null, Undefined, DateV (Some 0), DateV (Some 86400000)]]"
    by (simp only: vals)
  with h show ?thesis by simp
qed

text \<open>
  Claim C7, the local fallback at a store that holds folder \<open>f1\<close> and one file that
  refers to it: \<open>deleteFolder\<close> succeeds and removes the folder, the file is still
  there, and its \<open>folderId\<close> is still \<open>f1\<close>, not \<open>null\<close>.
\<close>

theorem C7_deleteFolder_local_keeps_reference:
  "map (\<lambda>f. get_prop f ''folderId'') (getFilesFromLocalStorage sample_builtins sample_store)
     = [Str ''f1'']
   \<and> fst (deleteFolder sample_builtins None ''f1'' sample_store) = Success None
   \<and> getFoldersFromLocalStorage (snd (deleteFolder sample_builtins None ''f1'' sample_store)) = []
   \<and> map (\<lambda>f. (get_prop f ''id'', get_prop f ''folderId''))
       (getFilesFromLocalStorage sample_builtins
          (snd (deleteFolder sample_builtins None ''f1'' sample_store)))
     = [(Str ''a'', Str ''f1'')]"
  by (simp add: deleteFolder_def deleteFolderFromLocalStorage_def sample_store_def
      saveFoldersToLocalStorage_def saveFilesToLocalStorage_def getFoldersFromLocalStorage_def
      getFilesFromLocalStorage_def revive_dates_def stringify_obj_def parse_obj_def
      sample_record_def sample_builtins_def get_prop_def Let_def)

text \<open>
  Claim C9: \<open>updateFileInLocalStorage\<close> with an id that no stored file has returns
  \<open>{success: false, error: 'File not found'}\<close> and leaves the store as it was;
  \<open>deleteFileFromLocalStorage\<close> with an id that no stored file has returns success and
  leaves a stored list of file records as it was (and an absent or unreadable list
  empty).
\<close>

theorem C9_missing_id_leaves_store:
  "((\<forall>f \<in> set (getFilesFromLocalStorage B store). get_prop f ''id'' \<noteq> Str fid) \<longrightarrow>
      updateFileInLocalStorage B fid fileData now store =
        (Failure (Some ''File not found''), store))
   \<and> (store ''archiveFiles'' = Some (Rows (map (stringify_obj B) fs)) \<and>
       (\<forall>f \<in> set fs. file_record f \<and> dates_survive B f \<and> get_prop f ''id'' \<noteq> Str fid) \<longrightarrow>
      deleteFileFromLocalStorage B fid store = (Success None, store))
   \<and> (store ''archiveFiles'' = None \<or> store ''archiveFiles'' = Some Unparseable \<longrightarrow>
      fst (deleteFileFromLocalStorage B fid store) = Success None \<and>
      getFilesFromLocalStorage B (snd (deleteFileFromLocalStorage B fid store)) = [])"
proof -
  have upd: "updateFileInLocalStorage B fid fileData now store =
        (Failure (Some ''File not found''), store)"
    if "\<forall>f \<in> set (getFilesFromLocalStorage B store). get_prop f ''id'' \<noteq> Str fid"
  proof -
    from that have "findIndex (\<lambda>f. get_prop f ''id'' = Str fid) (getFilesFromLocalStorage B store) = None"
      by (simp add: findIndex_None_iff)
    then show ?thesis
      by (simp add: updateFileInLocalStorage_def Let_def)
  qed
  have del: "deleteFileFromLocalStorage B fid store = (Success None, store)"
    if a: "store ''archiveFiles'' = Some (Rows (map (stringify_obj B) fs)) \<and>
       (\<forall>f \<in> set fs. file_record f \<and> dates_survive B f \<and> get_prop f ''id'' \<noteq> Str fid)"
  proof -
  from a have recs: "\<forall>f \<in> set fs. file_record f \<and> dates_survive B f" by blast
  from a have "getFilesFromLocalStorage B store = map (\<lambda>f. revive_dates B (stringify_obj B f)) fs"
    by (simp add: getFilesFromLocalStorage_def comp_def)
  then have loaded: "getFilesFromLocalStorage B store = map (filter (\<lambda>(k, v). v \<noteq> Undefined)) fs"
    by (simp only: reload_records[OF recs])
  have keep: "filter (\<lambda>f. get_prop f ''id'' \<noteq> Str fid) (map (filter (\<lambda>(k, v). v \<noteq> Undefined)) fs)
        = map (filter (\<lambda>(k, v). v \<noteq> Undefined)) fs"
  proof (rule filter_True)
    have "get_prop (filter (\<lambda>(k, v). v \<noteq> Undefined) f) ''id'' \<noteq> Str fid"
      if f: "f \<in> set fs" for f
    proof -
      from a f have "distinct (map fst f)" by (simp add: file_record_def)
      then have "get_prop (filter (\<lambda>(k, v). v \<noteq> Undefined) f) ''id'' = get_prop f ''id''"
        by (rule get_prop_defined)
      with a f show ?thesis by simp
    qed
    then show "\<forall>g \<in> set (map (filter (\<lambda>(k, v). v \<noteq> Undefined)) fs).
                 get_prop g ''id'' \<noteq> Str fid"
      by simp
  qed
  have same: "map (stringify_obj B) (map (filter (\<lambda>(k, v). v \<noteq> Undefined)) fs) =
        map (stringify_obj B) fs"
    by (simp add: stringify_defined comp_def)
  from a have idem: "store(''archiveFiles'' \<mapsto> Rows (map (stringify_obj B) fs)) = store"
    by (auto simp: fun_upd_idem)
  have "deleteFileFromLocalStorage B fid store =
        (Success None,
         store(''archiveFiles'' \<mapsto>
           Rows (map (stringify_obj B) (map (filter (\<lambda>(k, v). v \<noteq> Undefined)) fs))))"
    by (simp only: deleteFileFromLocalStorage_def Let_def loaded keep
        saveFilesToLocalStorage_def)
  then show ?thesis
    by (simp only: same idem)
  qed
  have absent: "fst (deleteFileFromLocalStorage B fid store) = Success None \<and>
      getFilesFromLocalStorage B (snd (deleteFileFromLocalStorage B fid store)) = []"
    if "store ''archiveFiles'' = None \<or> store ''archiveFiles'' = Some Unparseable"
  proof -
    from that have "getFilesFromLocalStorage B store = []"
      by (auto simp: getFilesFromLocalStorage_def)
    then show ?thesis
      by (simp add: deleteFileFromLocalStorage_def Let_def saveFilesToLocalStorage_def
          getFilesFromLocalStorage_def)
  qed
  from upd del absent show ?thesis by blast
qed

theorem C9_missing_id_leaves_store_witness:
  "map (\<lambda>f. get_prop f ''id'') (getFilesFromLocalStorage sample_builtins sample_store) = [Str ''a'']
   \<and> updateFileInLocalStorage sample_builtins ''zz'' [(''title'', Str ''New'')] 5 sample_store =
        (Failure (Some ''File not found''), sample_store)
   \<and> sample_store ''archiveFiles'' =
        Some (Rows (map (stringify_obj sample_builtins) [sample_record ''a'' (Str ''f1'')]))
   \<and> file_record (sample_record ''a'' (Str ''f1''))
   \<and> dates_survive sample_builtins (sample_record ''a'' (Str ''f1''))
   \<and> get_prop (sample_record ''a'' (Str ''f1'')) ''id'' = Str ''a''
   \<and> deleteFileFromLocalStorage sample_builtins ''zz'' sample_store = (Success None, sample_store)"
proof -
  let ?fs = "[sample_record ''a'' (Str ''f1'')]"
  have st: "sample_store ''archiveFiles'' = Some (Rows (map (stringify_obj sample_builtins) ?fs))"
    by (simp add: sample_store_def saveFoldersToLocalStorage_def saveFilesToLocalStorage_def)
  have h: "\<forall>f \<in> set ?fs. file_record f \<and> dates_survive sample_builtins f \<and>
             get_prop f ''id'' \<noteq> Str ''zz''"
    by (simp add: sample_record_def file_record_def dates_survive_def date_survives_def
        get_prop_def is_valid_date_def is_date_def valid_time_def sample_builtins_def)
  have idl: "map (\<lambda>f. get_prop f ''id'') (getFilesFromLocalStorage sample_builtins sample_store)
               = [Str ''a'']"
    by (simp add: getFilesFromLocalStorage_def st revive_dates_def stringify_obj_def
        parse_obj_def sample_record_def sample_builtins_def get_prop_def Let_def)
  have "\<forall>v \<in> set (map (\<lambda>f. get_prop f ''id'')
                 (getFilesFromLocalStorage sample_builtins sample_store)). v \<noteq> Str ''zz''"
    unfolding idl by simp
  then have ids: "\<forall>f \<in> set (getFilesFromLocalStorage sample_builtins sample_store).
               get_prop f ''id'' \<noteq> Str ''zz''"
    by simp
  have ida: "get_prop (sample_record ''a'' (Str ''f1'')) ''id'' = Str ''a''"
    by (simp add: sample_record_def get_prop_def)
  note C = C9_missing_id_leaves_store[of sample_builtins sample_store "''zz''" _ _ ?fs]
  from C ids have u: "updateFileInLocalStorage sample_builtins ''zz'' [(''title'', Str ''New'')] 5
        sample_store = (Failure (Some ''File not found''), sample_store)"
    by blast
  from C st h have d: "deleteFileFromLocalStorage sample_builtins ''zz'' sample_store =
        (Success None, sample_store)"
    by blast
  from idl u st h ida d show ?thesis by simp
qed

section \<open>Properties of signUp\<close>

lemma signUp_finish_trace: "snd (signUp_finish session trace) = trace"
  by (simp add: signUp_finish_def)

lemma signUp_invalid:
  "\<not> valid_username username \<Longrightarrow>
   \<exists>e. signUp supabase email password username = (SignUpFailed (Some e), [])"
  by (cases supabase) (simp_all add: signUp_def)

lemma signUp_taken:
  "valid_username username \<Longrightarrow>
   lookup_username client (toLowerCase username) = LookupReturned (Some existingUser) \<Longrightarrow>
   signUp (Some client) email password username =
     (SignUpFailed (Some ''Username is already taken''), [LookupUsername (toLowerCase username)])"
  by (auto simp: signUp_def Let_def valid_username_def truthy_str_def)

lemma signUp_creates_only_after_checks:
  assumes "AuthSignUp a b c \<in> set (snd (signUp supabase email password username))"
  shows "valid_username username \<and>
         (\<exists>client. supabase = Some client \<and>
            lookup_username client (toLowerCase username) = LookupReturned None) \<and>
         take 2 (snd (signUp supabase email password username)) =
           [LookupUsername (toLowerCase username), AuthSignUp email password (toLowerCase username)]"
proof (cases supabase)
  case None
  with assms show ?thesis by (simp add: signUp_def)
next
  case (Some client)
  show ?thesis
  proof (cases "\<not> truthy_str username \<or> \<not> valid_username username")
    case True
    with assms Some show ?thesis by (simp add: signUp_def)
  next
    case False
    then have v: "valid_username username" and t: "truthy_str username" by simp_all
    show ?thesis
    proof (cases "lookup_username client (toLowerCase username)")
      case (LookupThrew e)
      with assms Some v t show ?thesis by (simp add: signUp_def Let_def)
    next
      case (LookupReturned row)
      show ?thesis
      proof (cases row)
        case None
        with LookupReturned Some v t show ?thesis
          by (auto simp: signUp_def Let_def signUp_finish_def
              split: auth_response.splits option.splits write_response.splits)
      next
        case (Some existingUser)
        with assms LookupReturned \<open>supabase = Some client\<close> v t show ?thesis
          by (simp add: signUp_def Let_def)
      qed
    qed
  qed
qed

lemma toLowerChar_not_upper: "c \<notin> set upper_letters \<Longrightarrow> toLowerChar c = c"
proof -
  assume "c \<notin> set upper_letters"
  then have "c \<notin> fst ` set (zip upper_letters lower_letters)"
    by (auto dest: set_zip_leftD)
  then have "map_of (zip upper_letters lower_letters) c = None"
    by (simp add: map_of_eq_None_iff)
  then show ?thesis by (simp add: toLowerChar_def)
qed

lemma username_chars_not_upper: "c \<in> set username_chars \<Longrightarrow> c \<notin> set upper_letters"
  unfolding username_chars_def upper_letters_def by (simp, elim disjE, simp_all)

lemma toLowerChar_username: "c \<in> set username_chars \<Longrightarrow> toLowerChar c = c"
  by (simp add: toLowerChar_not_upper username_chars_not_upper)

lemma toLowerCase_valid_username: "valid_username u \<Longrightarrow> toLowerCase u = u"
  by (simp add: valid_username_def toLowerCase_def list_all_iff map_idI toLowerChar_username)

text \<open>
  Claim C8: \<open>signUp\<close> validates the username pattern before anything else is sent.  For
  every username that is not 3 to 20 characters from \<open>a\<close>..\<open>z\<close>, \<open>0\<close>..\<open>9\<close> and
  \<open>_\<close>, it returns a failure and sends no request at all: no uniqueness lookup, no
  identity creation, no profile write.  For a valid username for which the uniqueness
  lookup finds a row in the profiles table, it returns the failure
  \<open>Username is already taken\<close> after that one lookup, without creating the identity.
  Whenever an identity creation is sent, the username is valid, the lookup has found no
  row, and the lookup and the creation are the first two requests, in that order.
\<close>

theorem C8_signUp_validates_first:
  "(\<not> valid_username username \<longrightarrow>
      (\<exists>e. signUp supabase email password username = (SignUpFailed (Some e), [])))
   \<and> (valid_username username \<and>
       lookup_username client (toLowerCase username) = LookupReturned (Some existingUser) \<longrightarrow>
      signUp (Some client) email password username =
        (SignUpFailed (Some ''Username is already taken''), [LookupUsername username]))
   \<and> (AuthSignUp a b c \<in> set (snd (signUp supabase email password username)) \<longrightarrow>
      valid_username username \<and>
      (\<exists>cl. supabase = Some cl \<and>
         lookup_username cl (toLowerCase username) = LookupReturned None) \<and>
      take 2 (snd (signUp supabase email password username)) =
        [LookupUsername (toLowerCase username), AuthSignUp email password (toLowerCase username)])"
proof (intro conjI impI)
  assume "\<not> valid_username username"
  then show "\<exists>e. signUp supabase email password username = (SignUpFailed (Some e), [])"
    by (rule signUp_invalid)
next
  assume a: "valid_username username \<and>
       lookup_username client (toLowerCase username) = LookupReturned (Some existingUser)"
  then have "toLowerCase username = username" by (simp add: toLowerCase_valid_username)
  with a signUp_taken[of username client existingUser email password]
  show "signUp (Some client) email password username =
        (SignUpFailed (Some ''Username is already taken''), [LookupUsername username])"
    by simp
next
  assume a: "AuthSignUp a b c \<in> set (snd (signUp supabase email password username))"
  from signUp_creates_only_after_checks[OF a]
  show "valid_username username" by blast
  from signUp_creates_only_after_checks[OF a]
  show "\<exists>cl. supabase = Some cl \<and>
         lookup_username cl (toLowerCase username) = LookupReturned None" by blast
  from signUp_creates_only_after_checks[OF a]
  show "take 2 (snd (signUp supabase email password username)) =
        [LookupUsername (toLowerCase username), AuthSignUp email password (toLowerCase username)]"
    by blast
qed

theorem C8_signUp_validates_first_witness:
  "\<not> valid_username ''Bob''
   \<and> snd (signUp (Some sample_client) ''b@x.org'' ''pw'' ''Bob'') = []
   \<and> valid_username ''kaustuv''
   \<and> lookup_username sample_client (toLowerCase ''kaustuv'')
        = LookupReturned (Some [(''username'', Str ''kaustuv'')])
   \<and> signUp (Some sample_client) ''k@x.org'' ''pw'' ''kaustuv'' =
        (SignUpFailed (Some ''Username is already taken''), [LookupUsername ''kaustuv''])
   \<and> valid_username ''new_user1''
   \<and> signUp (Some sample_client) ''n@x.org'' ''pw'' ''new_user1'' =
        (SignedUp (Some ''Please check your email to confirm your account''),
         [LookupUsername ''new_user1'', AuthSignUp ''n@x.org'' ''pw'' ''new_user1'',
          Delay 500, UpsertProfile ''u1'' ''n@x.org'' ''new_user1''])"
proof -
  have lower: "toLowerCase ''kaustuv'' = ''kaustuv''" "toLowerCase ''new_user1'' = ''new_user1''"
    by (simp_all add: toLowerCase_def toLowerChar_def upper_letters_def lower_letters_def)
  have bob: "\<not> valid_username ''Bob''"
    by (simp add: valid_username_def username_chars_def)
  have k: "valid_username ''kaustuv''" and n: "valid_username ''new_user1''"
    by (simp_all add: valid_username_def username_chars_def)
  have l: "lookup_username sample_client (toLowerCase ''kaustuv'')
        = LookupReturned (Some [(''username'', Str ''kaustuv'')])"
    by (simp add: lower sample_client_def)
  note C = C8_signUp_validates_first
  from C[of "''Bob''" "Some sample_client" "''b@x.org''" "''pw''"] bob
  obtain e where "signUp (Some sample_client) ''b@x.org'' ''pw'' ''Bob'' = (SignUpFailed (Some e), [])"
    by blast
  then have r0: "snd (signUp (Some sample_client) ''b@x.org'' ''pw'' ''Bob'') = []"
    by simp
  from C[of "''kaustuv''" _ _ _ sample_client "[(''username'', Str ''kaustuv'')]"
      "''k@x.org''" "''pw''"] k l
  have r1: "signUp (Some sample_client) ''k@x.org'' ''pw'' ''kaustuv'' =
        (SignUpFailed (Some ''Username is already taken''), [LookupUsername ''kaustuv''])"
    by blast
  have r2: "signUp (Some sample_client) ''n@x.org'' ''pw'' ''new_user1'' =
        (SignedUp (Some ''Please check your email to confirm your account''),
         [LookupUsername ''new_user1'', AuthSignUp ''n@x.org'' ''pw'' ''new_user1'',
          Delay 500, UpsertProfile ''u1'' ''n@x.org'' ''new_user1''])"
    using n by (simp add: signUp_def Let_def lower truthy_str_def sample_client_def
        signUp_finish_def)
  from bob r0 k l r1 n r2 show ?thesis by simp
qed

section \<open>Properties of formatFileSize\<close>

declare digits.simps [simp del]

lemma unit_index_floorlog: "0 < bytes \<Longrightarrow> unit_index bytes = floorlog 1024 bytes - 1"
  by (simp add: unit_index_def floorlog_def log_def)

lemma unit_index_eq:
  "1024 ^ n \<le> bytes \<Longrightarrow> bytes < 1024 ^ (n + 1) \<Longrightarrow> unit_index bytes = n"
proof -
  assume lo: "1024 ^ n \<le> bytes" and hi: "bytes < 1024 ^ (n + 1)"
  have "\<lfloor>log (real 1024) (real bytes)\<rfloor> = int n"
    by (rule floor_log_nat_eq_if[OF lo hi]) simp
  then show ?thesis by (simp add: unit_index_def log_def)
qed

lemma unit_index_small: "1 \<le> bytes \<Longrightarrow> bytes < 1024 ^ 4 \<Longrightarrow> unit_index bytes < 4"
proof -
  assume b: "1 \<le> bytes" "bytes < 1024 ^ 4"
  then have "floorlog 1024 bytes \<le> 4"
    by (simp add: floorlog_le_iff)
  with b show ?thesis by (simp add: unit_index_floorlog)
qed

lemma unit_index_large: "1024 ^ 4 \<le> bytes \<Longrightarrow> 4 \<le> unit_index bytes"
proof -
  assume b: "1024 ^ 4 \<le> bytes"
  then have "Suc 4 \<le> floorlog 1024 bytes"
    by (intro floorlog_ge_SucI) simp_all
  moreover from b have "0 < bytes" by (simp add: Suc_le_eq[symmetric] order_trans[rotated])
  ultimately show ?thesis by (simp add: unit_index_floorlog)
qed

lemma digits_numeric: "digits n \<noteq> [] \<and> list_all (\<lambda>c. c \<in> set ''0123456789.'') (digits n)"
proof (induction n rule: digits.induct)
  case (1 n)
  have d: "''0123456789'' ! m \<in> set ''0123456789.''" if "m < 10" for m
  proof -
    from that have "''0123456789'' ! m \<in> set ''0123456789''"
      by (intro nth_mem) simp
    then show ?thesis by auto
  qed
  show ?case
  proof (cases "n < 10")
    case True
    then show ?thesis by (subst (1 2) digits.simps) (simp add: d del: set_simps list.set)
  next
    case False
    with 1 show ?thesis by (subst (1 2) digits.simps) (simp add: d del: set_simps list.set)
  qed
qed

lemma one_decimal_numeric: "numeric_text (one_decimal bytes divisor)"
  using digits_numeric by (simp add: one_decimal_def numeric_text_def Let_def)

lemma formatFileSize_in_range:
  assumes "1 \<le> bytes" and "bytes < 1024 ^ 4"
  shows "\<exists>num u. formatFileSize bytes = num @ '' '' @ u \<and> numeric_text num \<and> u \<in> set sizes"
proof -
  from assms have "unit_index bytes < 4" by (rule unit_index_small)
  then have i: "unit_index bytes < length sizes"
    by (simp add: sizes_def)
  from assms have "formatFileSize bytes =
      one_decimal bytes (1024 ^ unit_index bytes) @ '' '' @ sizes ! unit_index bytes"
    using i by (simp add: formatFileSize_def Let_def)
  moreover from i have "sizes ! unit_index bytes \<in> set sizes" by (rule nth_mem)
  ultimately show ?thesis using one_decimal_numeric by blast
qed

lemma formatFileSize_out_of_range:
  assumes "1024 ^ 4 \<le> bytes"
  shows "\<exists>num. formatFileSize bytes = num @ '' undefined'' \<and> numeric_text num"
proof -
  from assms have i: "\<not> unit_index bytes < length sizes"
    using unit_index_large[OF assms] by (simp add: sizes_def)
  from assms have "bytes \<noteq> 0" by auto
  with i have "formatFileSize bytes =
      one_decimal bytes (1024 ^ unit_index bytes) @ '' undefined''"
    by (simp add: formatFileSize_def Let_def)
  then show ?thesis using one_decimal_numeric by blast
qed

text \<open>
  Claim C10: \<open>formatFileSize(0)\<close> is \<open>0 Bytes\<close>; for every byte count from 1 up to,
  but not including, \<open>1024^4\<close> the unit index lies within the \<open>sizes\<close> array and the
  result is a number followed by a space and one of \<open>Bytes\<close>, \<open>KB\<close>, \<open>MB\<close>,
  \<open>GB\<close>; from \<open>1024^4\<close> on the index is outside the array, and the result is a number
  followed by \<open>undefined\<close>.
\<close>

theorem C10_formatFileSize_range:
  "formatFileSize 0 = ''0 Bytes''
   \<and> (1 \<le> bytes \<and> bytes < 1024 ^ 4 \<longrightarrow>
        unit_index bytes < length sizes \<and>
        (\<exists>num u. formatFileSize bytes = num @ '' '' @ u \<and> numeric_text num \<and> u \<in> set sizes))
   \<and> (1024 ^ 4 \<le> bytes \<longrightarrow>
        \<not> unit_index bytes < length sizes \<and>
        (\<exists>num. formatFileSize bytes = num @ '' undefined'' \<and> numeric_text num))"
proof (intro conjI impI)
  show "formatFileSize 0 = ''0 Bytes''" by (simp add: formatFileSize_def)
next
  assume "1 \<le> bytes \<and> bytes < 1024 ^ 4"
  then have "unit_index bytes < 4" by (intro unit_index_small) blast+
  then show "unit_index bytes < length sizes"
    by (simp add: sizes_def)
next
  assume "1 \<le> bytes \<and> bytes < 1024 ^ 4"
  then show "\<exists>num u. formatFileSize bytes = num @ '' '' @ u \<and> numeric_text num \<and> u \<in> set sizes"
    by (intro formatFileSize_in_range) blast+
next
  assume "1024 ^ 4 \<le> bytes"
  then show "\<not> unit_index bytes < length sizes"
    using unit_index_large[of bytes] by (simp add: sizes_def)
next
  assume "1024 ^ 4 \<le> bytes"
  then show "\<exists>num. formatFileSize bytes = num @ '' undefined'' \<and> numeric_text num"
    by (rule formatFileSize_out_of_range)
qed

theorem C10_formatFileSize_range_witness:
  "(1::nat) \<le> 1536 \<and> (1536::nat) < 1024 ^ 4
   \<and> unit_index 1536 = 1
   \<and> formatFileSize 1536 = ''1.5 KB''
   \<and> (1024::nat) ^ 4 \<le> 1099511627776
   \<and> unit_index 1099511627776 = 4
   \<and> formatFileSize 1099511627776 = ''1 undefined''"
proof -
  have i1: "unit_index 1536 = 1" by (rule unit_index_eq) simp_all
  have i4: "unit_index 1099511627776 = 4" by (rule unit_index_eq) simp_all
  have d1: "digits (Suc 0) = ''1''"
    by (subst digits.simps) simp
  have d5: "digits 5 = ''5''"
    by (subst digits.simps) simp
  have f1: "formatFileSize 1536 = ''1.5 KB''"
    by (simp add: formatFileSize_def Let_def i1 one_decimal_def sizes_def d1 d5)
  have f4: "formatFileSize 1099511627776 = ''1 undefined''"
    by (simp add: formatFileSize_def Let_def i4 one_decimal_def sizes_def d1)
  from C10_formatFileSize_range[of 1536] have "unit_index 1536 < length sizes" by simp
  moreover from C10_formatFileSize_range[of 1099511627776]
  have "\<not> unit_index 1099511627776 < length sizes" by simp
  ultimately show ?thesis using i1 i4 f1 f4 by simp
qed

end
